theory Spec2Isabelle
  imports Complex_Main
begin

section \<open>JavaScript numbers and library functions\<close>

text \<open>
  The numbers an invocation is given are finite and are modelled as \<^typ>\<open>real\<close>: the
  zooms of the transform and of the options, coordinates, elevations and distances, and
  what is computed from them before the loop. The coordinates of a quadtree node are
  integers (they start at 0 and are only shifted and incremented), its zoom is a natural
  number (it starts at 0 and is only incremented), a wrap is an integer.

  The zoom a tile asks for is different: its formula divides by a distance that may be 0
  and takes logarithms, so on finite inputs it may be NaN or infinite, and a NaN decides
  the comparison that ends the descent. That zoom, and the overscaled zoom of a tile
  identifier taken from it, is a \<open>number\<close>: NaN, an infinity or a finite value.
\<close>

datatype number = NaN | NegInf | Fin real | PosInf

text \<open>
  \<^verbatim>\<open>Math.max\<close>, \<^verbatim>\<open>Math.min\<close> and \<^verbatim>\<open>>=\<close> on such numbers: a NaN operand makes the first
  two NaN and the comparison false.
\<close>

fun Math_max :: "number \<Rightarrow> number \<Rightarrow> number" where
  "Math_max NaN b = NaN"
| "Math_max a NaN = NaN"
| "Math_max PosInf b = PosInf"
| "Math_max a PosInf = PosInf"
| "Math_max NegInf b = b"
| "Math_max a NegInf = a"
| "Math_max (Fin a) (Fin b) = Fin (max a b)"

fun Math_min :: "number \<Rightarrow> number \<Rightarrow> number" where
  "Math_min NaN b = NaN"
| "Math_min a NaN = NaN"
| "Math_min NegInf b = NegInf"
| "Math_min a NegInf = NegInf"
| "Math_min PosInf b = b"
| "Math_min a PosInf = a"
| "Math_min (Fin a) (Fin b) = Fin (min a b)"

fun greaterEq :: "number \<Rightarrow> number \<Rightarrow> bool" where
  "greaterEq NaN b = False"
| "greaterEq a NaN = False"
| "greaterEq PosInf b = True"
| "greaterEq a NegInf = True"
| "greaterEq NegInf b = False"
| "greaterEq a PosInf = False"
| "greaterEq (Fin a) (Fin b) = (b \<le> a)"

text \<open>
  The arithmetic of the formula is the arithmetic of doubles, which rounds and has these
  special values. It is a parameter of the model: the operators \<^verbatim>\<open>+\<close>, \<^verbatim>\<open>*\<close> and \<^verbatim>\<open>/\<close>,
  the methods and the constant of \<^verbatim>\<open>Math\<close> that the formula uses, and \<^verbatim>\<open>scaleZoom\<close> of
  \<^verbatim>\<open>transform_helper\<close>, which is not among the sources.
\<close>

record Numerics =
  m_add :: "number \<Rightarrow> number \<Rightarrow> number"
  m_mul :: "number \<Rightarrow> number \<Rightarrow> number"
  m_div :: "number \<Rightarrow> number \<Rightarrow> number"
  m_atan :: "number \<Rightarrow> number"
  m_cos :: "number \<Rightarrow> number"
  m_round :: "number \<Rightarrow> number"
  m_floor :: "number \<Rightarrow> number"
  m_PI :: number
  scaleZoom :: "number \<Rightarrow> number"

text \<open>
  The shift operators of JavaScript work on 32-bit integers: the left operand is reduced
  to a signed 32-bit value, the shift count to its low five bits.
\<close>

definition ToInt32 :: "int \<Rightarrow> int" where
  "ToInt32 v = (v + 2 ^ 31) mod 2 ^ 32 - 2 ^ 31"

definition shiftLeft :: "int \<Rightarrow> int \<Rightarrow> int" where
  "shiftLeft v n = ToInt32 (v * 2 ^ nat (n mod 32))"

text \<open>The integral part of a number, as the conversion of a shift count takes it.\<close>

definition trunc :: "real \<Rightarrow> int" where
  "trunc r = (if 0 \<le> r then \<lfloor>r\<rfloor> else \<lceil>r\<rceil>)"

text \<open>\<^verbatim>\<open>Math.hypot\<close> and gl-matrix's \<^verbatim>\<open>vec2.sqrLen\<close>.\<close>

definition hypot :: "real \<Rightarrow> real \<Rightarrow> real" where
  "hypot a b = sqrt (a * a + b * b)"

definition sqrLen :: "real \<times> real \<Rightarrow> real" where
  "sqrLen v = fst v * fst v + snd v * snd v"


section \<open>Data model\<close>

datatype IntersectionResult = None_IR | Partial | Full

type_synonym vec3 = "real \<times> real \<times> real"
type_synonym vec4 = "real \<times> real \<times> real \<times> real"

record Aabb =
  aabb_min :: vec3
  aabb_max :: vec3

record MercatorCoordinate =
  mc_x :: real
  mc_y :: real
  mc_z :: real

text \<open>The object literal \<^verbatim>\<open>{x, y, z}\<close> handed to the details functions.\<close>

record TileXYZ =
  t_x :: int
  t_y :: int
  t_z :: nat

text \<open>
  Modelled from the spec: \<^verbatim>\<open>OverscaledTileID\<close> of \<^verbatim>\<open>source/tile_id\<close>, which is not among
  the sources; the specification gives the public tile identifier as the five fields
  \<^verbatim>\<open>{overscaledZoom, wrap, canonicalZoom, x, y}\<close>.
\<close>

record OverscaledTileID =
  overscaledZ :: number
  wrap :: int
  canonical_z :: nat
  canonical_x :: int
  canonical_y :: int

record MinMax =
  minElevation :: "real option"
  maxElevation :: "real option"

text \<open>A terrain provider is what its \<^verbatim>\<open>getMinMaxElevation\<close> answers.\<close>

type_synonym Terrain = "OverscaledTileID \<Rightarrow> MinMax"

record CoveringTilesOptions =
  tileSize :: real
  minzoom :: "real option"
  maxzoom :: "real option"
  roundZoom :: bool
  reparseOverscaled :: bool
  terrain :: "Terrain option"

text \<open>
  The fields of \<^verbatim>\<open>IReadonlyTransform\<close> that the traversal reads. Its method
  \<^verbatim>\<open>coveringZoomLevel\<close> is outside the sources and is a field of the record.
\<close>

record Transform =
  coveringZoomLevel :: "CoveringTilesOptions \<Rightarrow> real"
  tr_maxZoom :: real
  tr_zoom :: real
  tr_tileSize :: real
  tr_elevation :: real
  tr_pitch :: real
  tr_fov :: real
  tr_pitchBehavior :: real
  tr_padding_top :: real
  renderWorldCopies :: bool

record CoveringTilesResult =
  tileID :: OverscaledTileID
  distanceSq :: real
  tileDistanceToCamera :: real

record CoveringTilesStackEntry =
  se_zoom :: nat
  se_x :: int
  se_y :: int
  se_wrap :: int
  se_fullyVisible :: bool

text \<open>
  Type annotations are erased when the program runs, so a function receives whatever its
  caller passes. The two arguments of \<^verbatim>\<open>isTileVisible\<close> after the frustum are run-time
  values: a box, a four-component vector, or \<^verbatim>\<open>null\<close>/\<^verbatim>\<open>undefined\<close>. Calling a method on
  a value that does not have it raises \<^verbatim>\<open>TypeError\<close>; reading a block-scoped constant
  inside its own initialiser raises \<^verbatim>\<open>ReferenceError\<close>.
\<close>

datatype Value = Null | Vec4 vec4 | Box Aabb

datatype Error = TypeError | ReferenceError

definition planeValue :: "vec4 option \<Rightarrow> Value" where
  "planeValue plane = (case plane of None \<Rightarrow> Null | Some p \<Rightarrow> Vec4 p)"

text \<open>
  The methods of \<^verbatim>\<open>Aabb\<close> (\<^verbatim>\<open>util/primitives\<close>) are outside the sources: the geometry
  collaborator is a parameter of the model.
\<close>

record 'f Primitives =
  intersectsFrustum :: "Aabb \<Rightarrow> 'f \<Rightarrow> IntersectionResult"
  intersectsPlane :: "Aabb \<Rightarrow> Value \<Rightarrow> IntersectionResult"
  distanceX :: "Aabb \<Rightarrow> real \<times> real \<Rightarrow> real"
  distanceY :: "Aabb \<Rightarrow> real \<times> real \<Rightarrow> real"

text \<open>The interface \<^verbatim>\<open>CoveringTilesDetails\<close>.\<close>

record CoveringTilesDetails =
  d_distanceToTile2d :: "real \<Rightarrow> real \<Rightarrow> TileXYZ \<Rightarrow> Aabb \<Rightarrow> real"
  d_getWrap :: "MercatorCoordinate \<Rightarrow> TileXYZ \<Rightarrow> int \<Rightarrow> int"
  d_getTileAABB :: "TileXYZ \<Rightarrow> int \<Rightarrow> real \<Rightarrow> CoveringTilesOptions \<Rightarrow> Error + Aabb"
  allowVariableZoom :: bool


section \<open>Visibility classifier\<close>

definition isTileVisible ::
  "'f Primitives \<Rightarrow> 'f \<Rightarrow> Value \<Rightarrow> Value \<Rightarrow> Error + IntersectionResult" where
  "isTileVisible P frustum aabb plane =
     (case aabb of
        Box b \<Rightarrow>
          (let frustumTest = intersectsFrustum P b frustum in
           if plane = Null then Inr frustumTest
           else
             (let planeTest = intersectsPlane P b plane in
              if frustumTest = None_IR \<or> planeTest = None_IR then Inr None_IR
              else if frustumTest = Full \<and> planeTest = Full then Inr Full
              else Inr Partial))
      | _ \<Rightarrow> Inl TypeError)"


section \<open>The traversal engine \<^verbatim>\<open>coveringTiles\<close>\<close>

text \<open>
  The values computed before the loop and read inside it: the closure of the loop body.
\<close>

record 'f Env =
  transform :: Transform
  frustum :: 'f
  plane :: "vec4 option"
  cameraCoord :: MercatorCoordinate
  centerCoord :: MercatorCoordinate
  options :: CoveringTilesOptions
  desiredZ :: real
  minZoom :: real
  maxZoom :: real
  nominalZ :: real
  numTiles :: real
  cameraPoint :: vec3
  centerPoint :: vec3
  distanceToCenter2d :: real
  distanceZ :: real
  distanceToCenter3d :: real

definition coveringEnv ::
  "Transform \<Rightarrow> 'f \<Rightarrow> vec4 option \<Rightarrow> MercatorCoordinate \<Rightarrow> MercatorCoordinate \<Rightarrow>
   CoveringTilesOptions \<Rightarrow> 'f Env" where
  "coveringEnv tr fr pl cam cen opts =
     (let dZ = coveringZoomLevel tr opts;
          minZ = (case minzoom opts of None \<Rightarrow> 0 | Some m \<Rightarrow> m);
          maxZ = (case maxzoom opts of Some m \<Rightarrow> m | None \<Rightarrow> tr_maxZoom tr);
          nomZ = min (max 0 dZ) maxZ;
          nT = 2 powr nomZ;
          d2d = hypot (mc_x cen - mc_x cam) (mc_y cen - mc_y cam);
          dZd = \<bar>mc_z cen - mc_z cam\<bar>
      in \<lparr>transform = tr, frustum = fr, plane = pl, cameraCoord = cam, centerCoord = cen,
          options = opts, desiredZ = dZ, minZoom = minZ, maxZoom = maxZ, nominalZ = nomZ,
          numTiles = nT,
          cameraPoint = (nT * mc_x cam, nT * mc_y cam, 0),
          centerPoint = (nT * mc_x cen, nT * mc_y cen, 0),
          distanceToCenter2d = d2d, distanceZ = dZd, distanceToCenter3d = hypot d2d dZd\<rparr>)"

definition newRootTile :: "int \<Rightarrow> CoveringTilesStackEntry" where
  "newRootTile w = \<lparr>se_zoom = 0, se_x = 0, se_y = 0, se_wrap = w, se_fullyVisible = False\<rparr>"

text \<open>
  The stack is a list whose head is the top: \<^verbatim>\<open>push\<close> conses, \<^verbatim>\<open>pop\<close> takes the head.
  The roots are pushed in the order -1, 1, -2, 2, -3, 3 and then 0.
\<close>

definition initialStack :: "Transform \<Rightarrow> CoveringTilesStackEntry list" where
  "initialStack tr =
     newRootTile 0 #
     (if renderWorldCopies tr
      then [newRootTile 3, newRootTile (- 3), newRootTile 2, newRootTile (- 2),
            newRootTile 1, newRootTile (- 1)]
      else [])"

text \<open>
  The zoom a tile asks for: the screen-wide desired zoom, or with variable zoom the
  per-tile formula, then \<^verbatim>\<open>Math.max(0, .)\<close>. The formula is written with the operations
  of the arithmetic, in the order the source applies them.
\<close>

definition tileDesiredZ :: "Numerics \<Rightarrow> 'f Env \<Rightarrow> bool \<Rightarrow> real \<Rightarrow> number" where
  "tileDesiredZ N E variableZoom distToTile2d =
     (let distToTile3d = hypot distToTile2d (distanceZ E);
          thisTileDesiredZ =
            (if variableZoom then
               (let thisTilePitch =
                      m_atan N (m_div N (Fin distToTile2d) (Fin (distanceZ E)));
                    v = m_add N
                          (m_add N (Fin (tr_zoom (transform E)))
                             (m_div N
                                (m_mul N (Fin (tr_pitchBehavior (transform E)))
                                   (scaleZoom N (m_cos N thisTilePitch)))
                                (Fin 2)))
                          (scaleZoom N
                             (m_div N
                                (m_div N
                                   (m_mul N
                                      (m_div N (Fin (tr_tileSize (transform E)))
                                         (Fin (tileSize (options E))))
                                      (Fin (distanceToCenter3d E)))
                                   (Fin distToTile3d))
                                (m_cos N
                                   (m_div N
                                      (m_mul N (m_div N (Fin (tr_fov (transform E))) (Fin 2))
                                         (m_PI N))
                                      (Fin 180)))))
                in if roundZoom (options E) then m_round N v else m_floor N v)
             else Fin (desiredZ E))
      in Math_max (Fin 0) thisTileDesiredZ)"

text \<open>
  The leaf branch: the result entry of a node that has reached its target depth.
\<close>

definition resultEntry ::
  "'f Env \<Rightarrow> CoveringTilesStackEntry \<Rightarrow> int \<Rightarrow> number \<Rightarrow> CoveringTilesResult" where
  "resultEntry E it w thisTileDesiredZ =
     (let x = se_x it; y = se_y it;
          dz = nominalZ E - real (se_zoom it);
          dx = fst (cameraPoint E) - 1 / 2 - real_of_int (shiftLeft x (trunc dz));
          dy = fst (snd (cameraPoint E)) - 1 / 2 - real_of_int (shiftLeft y (trunc dz));
          overscaledZ' = (if reparseOverscaled (options E) then thisTileDesiredZ
                          else Fin (real (se_zoom it)))
      in \<lparr>tileID = \<lparr>overscaledZ = (if real (se_zoom it) = maxZoom E then overscaledZ'
                                     else Fin (real (se_zoom it))),
                       wrap = w, canonical_z = se_zoom it, canonical_x = x, canonical_y = y\<rparr>,
          distanceSq = sqrLen (fst (centerPoint E) - 1 / 2 - real_of_int x,
                               fst (snd (centerPoint E)) - 1 / 2 - real_of_int y),
          tileDistanceToCamera = sqrt (dx * dx + dy * dy)\<rparr>)"

text \<open>The four children pushed by the last loop of the body, in the order pushed.\<close>

definition children ::
  "CoveringTilesStackEntry \<Rightarrow> int \<Rightarrow> bool \<Rightarrow> CoveringTilesStackEntry list" where
  "children it w fullyVisible =
     map (\<lambda>i. \<lparr>se_zoom = se_zoom it + 1,
               se_x = shiftLeft (se_x it) 1 + i mod 2,
               se_y = shiftLeft (se_y it) 1 + i div 2,
               se_wrap = w, se_fullyVisible = fullyVisible\<rparr>) [0, 1, 2, 3]"

text \<open>
  One iteration of the loop ends in one of four ways: the node is culled by the
  visibility test, dropped as coarser than the minimum zoom, emitted, or subdivided.
\<close>

datatype Visit =
  Culled
| TooCoarse
| Emit CoveringTilesResult
| Subdivide "CoveringTilesStackEntry list"

text \<open>
  What happens after the visibility test, given the box of the node, the zoom it asks
  for, its recomputed wrap and its visibility flag.
\<close>

definition emitOrSubdivide ::
  "'f Env \<Rightarrow> CoveringTilesStackEntry \<Rightarrow> number \<Rightarrow> int \<Rightarrow> bool \<Rightarrow> Visit" where
  "emitOrSubdivide E it thisTileDesiredZ w fullyVisible =
     (let z = Math_min thisTileDesiredZ (Fin (maxZoom E)) in
      if greaterEq (Fin (real (se_zoom it))) z then
        (if real (se_zoom it) < minZoom E then TooCoarse
         else Emit (resultEntry E it w thisTileDesiredZ))
      else Subdivide (children it w fullyVisible))"

text \<open>
  The visibility test of the body: \<^const>\<open>None\<close> when the node is culled, otherwise the
  flag \<^verbatim>\<open>fullyVisible\<close> after the test. A node whose ancestor was fully visible is not
  tested.
\<close>

definition visibility ::
  "'f Primitives \<Rightarrow> 'f Env \<Rightarrow> CoveringTilesStackEntry \<Rightarrow> Aabb \<Rightarrow> Error + bool option" where
  "visibility P E it aabb =
     (if \<not> se_fullyVisible it then
        (case isTileVisible P (frustum E) (Box aabb) (planeValue (plane E)) of
           Inl err \<Rightarrow> Inl err
         | Inr intersectResult \<Rightarrow>
             if intersectResult = None_IR then Inr None
             else Inr (Some (intersectResult = Full)))
      else Inr (Some True))"

definition visit ::
  "Numerics \<Rightarrow> 'f Primitives \<Rightarrow> 'f Env \<Rightarrow> CoveringTilesDetails \<Rightarrow>
   CoveringTilesStackEntry \<Rightarrow> Error + Visit" where
  "visit N P E D it =
     (let tid = \<lparr>t_x = se_x it, t_y = se_y it, t_z = se_zoom it\<rparr> in
      case d_getTileAABB D tid (se_wrap it) (tr_elevation (transform E)) (options E) of
        Inl err \<Rightarrow> Inl err
      | Inr aabb \<Rightarrow>
          (case visibility P E it aabb of
             Inl err \<Rightarrow> Inl err
           | Inr None \<Rightarrow> Inr Culled
           | Inr (Some fullyVisible) \<Rightarrow>
               (let distToTile2d =
                      d_distanceToTile2d D (mc_x (cameraCoord E)) (mc_y (cameraCoord E)) tid aabb
                in Inr (emitOrSubdivide E it
                          (tileDesiredZ N E (allowVariableZoom D) distToTile2d)
                          (d_getWrap D (centerCoord E) tid (se_wrap it))
                          fullyVisible))))"

partial_function (option) traverse ::
  "Numerics \<Rightarrow> 'f Primitives \<Rightarrow> 'f Env \<Rightarrow> CoveringTilesDetails \<Rightarrow>
   CoveringTilesStackEntry list \<Rightarrow> CoveringTilesResult list \<Rightarrow>
   (Error + CoveringTilesResult list) option" where
  "traverse N P E D stack result =
     (case stack of
        [] \<Rightarrow> Some (Inr result)
      | it # rest \<Rightarrow>
          (case visit N P E D it of
             Inl err \<Rightarrow> Some (Inl err)
           | Inr Culled \<Rightarrow> traverse N P E D rest result
           | Inr TooCoarse \<Rightarrow> traverse N P E D rest result
           | Inr (Emit r) \<Rightarrow> traverse N P E D rest (result @ [r])
           | Inr (Subdivide cs) \<Rightarrow> traverse N P E D (rev cs @ rest) result))"

text \<open>
  The final statement: \<^verbatim>\<open>Array.prototype.sort\<close> with the comparator
  \<^verbatim>\<open>a.distanceSq - b.distanceSq\<close> is a stable ascending sort by \<^verbatim>\<open>distanceSq\<close>, as
  \<^const>\<open>sort_key\<close> is; then the tile identifiers are taken. In the result of the
  routine \<^const>\<open>None\<close> stands for a loop that never ends, \<^const>\<open>Inl\<close> for a raised
  error.
\<close>

definition sortedTileIDs :: "CoveringTilesResult list \<Rightarrow> OverscaledTileID list" where
  "sortedTileIDs result = map tileID (sort_key distanceSq result)"

definition coveringTiles ::
  "Numerics \<Rightarrow> 'f Primitives \<Rightarrow> Transform \<Rightarrow> 'f \<Rightarrow> vec4 option \<Rightarrow> MercatorCoordinate \<Rightarrow>
   MercatorCoordinate \<Rightarrow> CoveringTilesOptions \<Rightarrow> CoveringTilesDetails \<Rightarrow>
   (Error + OverscaledTileID list) option" where
  "coveringTiles N P tr fr pl cam cen opts D =
     (case traverse N P (coveringEnv tr fr pl cam cen opts) D (initialStack tr) [] of
        None \<Rightarrow> None
      | Some (Inl err) \<Rightarrow> Some (Inl err)
      | Some (Inr result) \<Rightarrow> Some (Inr (sortedTileIDs result)))"

section \<open>The planar details provider\<close>

text \<open>The methods of the class \<^verbatim>\<open>MercatorCoveringTilesDetailsProvider\<close>.\<close>

definition provider_distanceToTile2d ::
  "'f Primitives \<Rightarrow> real \<Rightarrow> real \<Rightarrow> TileXYZ \<Rightarrow> Aabb \<Rightarrow> real" where
  "provider_distanceToTile2d P pointX pointY tid aabb =
     (let dX = distanceX P aabb (pointX, pointY);
          dY = distanceY P aabb (pointX, pointY)
      in hypot dX dY)"

definition provider_getWrap :: "MercatorCoordinate \<Rightarrow> TileXYZ \<Rightarrow> int \<Rightarrow> int" where
  "provider_getWrap cen tid parentWrap = parentWrap"

definition provider_getTileAABB ::
  "TileXYZ \<Rightarrow> int \<Rightarrow> real \<Rightarrow> CoveringTilesOptions \<Rightarrow> Aabb" where
  "provider_getTileAABB tid w elevation opts =
     (let minMax = (case terrain opts of
                      Some t \<Rightarrow>
                        (let mm = t \<lparr>overscaledZ = Fin (real (t_z tid)), wrap = w,
                                       canonical_z = t_z tid, canonical_x = t_x tid,
                                       canonical_y = t_y tid\<rparr>
                         in (case minElevation mm of None \<Rightarrow> elevation | Some e \<Rightarrow> e,
                             case maxElevation mm of None \<Rightarrow> elevation | Some e \<Rightarrow> e))
                    | None \<Rightarrow> (elevation, elevation));
          nT = real_of_int (shiftLeft 1 (int (t_z tid)))
      in \<lparr>aabb_min = (real_of_int w + real_of_int (t_x tid) / nT,
                      real_of_int (t_y tid) / nT, fst minMax),
          aabb_max = (real_of_int w + real_of_int (t_x tid + 1) / nT,
                      real_of_int (t_y tid + 1) / nT, snd minMax)\<rparr>)"

definition provider_allowVariableZoom :: "Transform \<Rightarrow> CoveringTilesOptions \<Rightarrow> bool" where
  "provider_allowVariableZoom tr opts =
     (terrain opts \<noteq> None \<or> 60 < tr_pitch tr \<or> 1 / 10 \<le> tr_padding_top tr)"

text \<open>
  The engine's details record filled from the provider: its three functions, and its
  answer to \<^verbatim>\<open>allowVariableZoom\<close> for the transform and options of the invocation.
\<close>

definition mercatorDetails ::
  "'f Primitives \<Rightarrow> Transform \<Rightarrow> CoveringTilesOptions \<Rightarrow> CoveringTilesDetails" where
  "mercatorDetails P tr opts =
     \<lparr>d_distanceToTile2d = provider_distanceToTile2d P,
      d_getWrap = provider_getWrap,
      d_getTileAABB = (\<lambda>tid w elevation opts'. Inr (provider_getTileAABB tid w elevation opts')),
      allowVariableZoom = provider_allowVariableZoom tr opts\<rparr>"


section \<open>The planar routine \<^verbatim>\<open>mercatorCoveringTiles\<close> and its helpers\<close>

definition distanceToTile2d ::
  "'f Primitives \<Rightarrow> real \<Rightarrow> real \<Rightarrow> TileXYZ \<Rightarrow> Aabb \<Rightarrow> real" where
  "distanceToTile2d P pointX pointY tid aabb =
     (let dX = distanceX P aabb (pointX, pointY);
          dY = distanceY P aabb (pointX, pointY)
      in hypot dX dY)"

definition getWrap :: "MercatorCoordinate \<Rightarrow> TileXYZ \<Rightarrow> int \<Rightarrow> int" where
  "getWrap cen tid parentWrap = parentWrap"

text \<open>
  With a terrain provider the function enters a block that declares a constant named
  \<^verbatim>\<open>tileID\<close>, as its parameter is, and reads \<^verbatim>\<open>tileID.z\<close> in the initialiser of that
  constant: the name denotes the constant, which has no value yet, and the read raises
  \<^verbatim>\<open>ReferenceError\<close>.
\<close>

definition getTileAABB ::
  "TileXYZ \<Rightarrow> int \<Rightarrow> real \<Rightarrow> CoveringTilesOptions \<Rightarrow> Error + Aabb" where
  "getTileAABB tid w elevation opts =
     (case terrain opts of
        Some t \<Rightarrow> Inl ReferenceError
      | None \<Rightarrow>
          (let nT = real_of_int (shiftLeft 1 (int (t_z tid)))
           in Inr \<lparr>aabb_min = (real_of_int w + real_of_int (t_x tid) / nT,
                               real_of_int (t_y tid) / nT, elevation),
                   aabb_max = (real_of_int w + real_of_int (t_x tid + 1) / nT,
                               real_of_int (t_y tid + 1) / nT, elevation)\<rparr>))"

text \<open>
  The body of the routine is the text of the engine's body, except in five places: it
  computes its own flag for variable zoom, it calls the three functions above where the
  engine calls its details, and it calls \<^verbatim>\<open>isTileVisible\<close> with the plane second and
  the box third. It computes the same values before its loop (\<^const>\<open>coveringEnv\<close>) and
  ends a node the same way (\<^const>\<open>tileDesiredZ\<close>, \<^const>\<open>emitOrSubdivide\<close>).
\<close>

definition allowZariableZoom :: "Transform \<Rightarrow> CoveringTilesOptions \<Rightarrow> bool" where
  "allowZariableZoom tr opts =
     (terrain opts \<noteq> None \<or> 60 < tr_pitch tr \<or> 1 / 10 \<le> tr_padding_top tr)"

definition mercatorVisibility ::
  "'f Primitives \<Rightarrow> 'f Env \<Rightarrow> CoveringTilesStackEntry \<Rightarrow> Aabb \<Rightarrow> Error + bool option" where
  "mercatorVisibility P E it aabb =
     (if \<not> se_fullyVisible it then
        (case isTileVisible P (frustum E) (planeValue (plane E)) (Box aabb) of
           Inl err \<Rightarrow> Inl err
         | Inr intersectResult \<Rightarrow>
             if intersectResult = None_IR then Inr None
             else Inr (Some (intersectResult = Full)))
      else Inr (Some True))"

definition mercatorVisit ::
  "Numerics \<Rightarrow> 'f Primitives \<Rightarrow> 'f Env \<Rightarrow> CoveringTilesStackEntry \<Rightarrow> Error + Visit" where
  "mercatorVisit N P E it =
     (let tid = \<lparr>t_x = se_x it, t_y = se_y it, t_z = se_zoom it\<rparr> in
      case getTileAABB tid (se_wrap it) (tr_elevation (transform E)) (options E) of
        Inl err \<Rightarrow> Inl err
      | Inr aabb \<Rightarrow>
          (case mercatorVisibility P E it aabb of
             Inl err \<Rightarrow> Inl err
           | Inr None \<Rightarrow> Inr Culled
           | Inr (Some fullyVisible) \<Rightarrow>
               (let distToTile2d =
                      distanceToTile2d P (mc_x (cameraCoord E)) (mc_y (cameraCoord E)) tid aabb
                in Inr (emitOrSubdivide E it
                          (tileDesiredZ N E (allowZariableZoom (transform E) (options E))
                             distToTile2d)
                          (getWrap (centerCoord E) tid (se_wrap it))
                          fullyVisible))))"

partial_function (option) mercatorTraverse ::
  "Numerics \<Rightarrow> 'f Primitives \<Rightarrow> 'f Env \<Rightarrow> CoveringTilesStackEntry list \<Rightarrow>
   CoveringTilesResult list \<Rightarrow> (Error + CoveringTilesResult list) option" where
  "mercatorTraverse N P E stack result =
     (case stack of
        [] \<Rightarrow> Some (Inr result)
      | it # rest \<Rightarrow>
          (case mercatorVisit N P E it of
             Inl err \<Rightarrow> Some (Inl err)
           | Inr Culled \<Rightarrow> mercatorTraverse N P E rest result
           | Inr TooCoarse \<Rightarrow> mercatorTraverse N P E rest result
           | Inr (Emit r) \<Rightarrow> mercatorTraverse N P E rest (result @ [r])
           | Inr (Subdivide cs) \<Rightarrow> mercatorTraverse N P E (rev cs @ rest) result))"

definition mercatorCoveringTiles ::
  "Numerics \<Rightarrow> 'f Primitives \<Rightarrow> Transform \<Rightarrow> 'f \<Rightarrow> vec4 option \<Rightarrow> MercatorCoordinate \<Rightarrow>
   MercatorCoordinate \<Rightarrow> CoveringTilesOptions \<Rightarrow> (Error + OverscaledTileID list) option" where
  "mercatorCoveringTiles N P tr fr pl cam cen opts =
     (case mercatorTraverse N P (coveringEnv tr fr pl cam cen opts) (initialStack tr) [] of
        None \<Rightarrow> None
      | Some (Inl err) \<Rightarrow> Some (Inl err)
      | Some (Inr result) \<Rightarrow> Some (Inr (sortedTileIDs result)))"


section \<open>Termination measure\<close>

text \<open>
  A node that asks for a zoom that is a number is subdivided only below the maximum zoom,
  so its children lie no deeper than the maximum zoom rounded up. A node weighs 5 to the
  power of the levels left below that depth: more than its four children together.
\<close>

definition depthBound :: "'f Env \<Rightarrow> nat" where
  "depthBound E = nat \<lceil>maxZoom E\<rceil>"

definition nodeWeight :: "'f Env \<Rightarrow> CoveringTilesStackEntry \<Rightarrow> nat" where
  "nodeWeight E it = 5 ^ (depthBound E - se_zoom it)"

definition stackWeight :: "'f Env \<Rightarrow> CoveringTilesStackEntry list \<Rightarrow> nat" where
  "stackWeight E stack = sum_list (map (nodeWeight E) stack)"


section \<open>The nodes of a traversal\<close>

text \<open>
  Names for what the body computes for a node: the tile it hands to the details
  functions, its box, the zoom it asks for given its box, and its recomputed wrap.
\<close>

abbreviation nodeTile :: "CoveringTilesStackEntry \<Rightarrow> TileXYZ" where
  "nodeTile it \<equiv> \<lparr>t_x = se_x it, t_y = se_y it, t_z = se_zoom it\<rparr>"

abbreviation nodeBox ::
  "'f Env \<Rightarrow> CoveringTilesDetails \<Rightarrow> CoveringTilesStackEntry \<Rightarrow> Error + Aabb" where
  "nodeBox E D it \<equiv>
     d_getTileAABB D (nodeTile it) (se_wrap it) (tr_elevation (transform E)) (options E)"

abbreviation nodeDesiredZ ::
  "Numerics \<Rightarrow> 'f Env \<Rightarrow> CoveringTilesDetails \<Rightarrow> CoveringTilesStackEntry \<Rightarrow> Aabb \<Rightarrow>
   number" where
  "nodeDesiredZ N E D it aabb \<equiv>
     tileDesiredZ N E (allowVariableZoom D)
       (d_distanceToTile2d D (mc_x (cameraCoord E)) (mc_y (cameraCoord E)) (nodeTile it) aabb)"

abbreviation nodeWrap ::
  "'f Env \<Rightarrow> CoveringTilesDetails \<Rightarrow> CoveringTilesStackEntry \<Rightarrow> int" where
  "nodeWrap E D it \<equiv> d_getWrap D (centerCoord E) (nodeTile it) (se_wrap it)"

text \<open>
  A node pushes another when its iteration subdivides and the other is one of the four
  children. The nodes a traversal visits are the roots of the initial stack and what
  is reached from them by pushes; the descendants of a node are what is reached from it
  by one push or more.
\<close>

definition pushes ::
  "Numerics \<Rightarrow> 'f Primitives \<Rightarrow> 'f Env \<Rightarrow> CoveringTilesDetails \<Rightarrow>
   CoveringTilesStackEntry \<Rightarrow> CoveringTilesStackEntry \<Rightarrow> bool" where
  "pushes N P E D it c =
     (case visit N P E D it of Inr (Subdivide cs) \<Rightarrow> c \<in> set cs | _ \<Rightarrow> False)"

text \<open>
  No zoom that a traversal from the given stack computes for a node is NaN: the zoom is
  computed for the nodes visited whose box could be built and that the visibility test
  did not cull.
\<close>

definition targetsAreNumbers ::
  "Numerics \<Rightarrow> 'f Primitives \<Rightarrow> 'f Env \<Rightarrow> CoveringTilesDetails \<Rightarrow>
   CoveringTilesStackEntry list \<Rightarrow> bool" where
  "targetsAreNumbers N P E D stack =
     (\<forall>seed it aabb fv.
        seed \<in> set stack \<and> (pushes N P E D)\<^sup>*\<^sup>* seed it \<and> nodeBox E D it = Inr aabb \<and>
        visibility P E it aabb = Inr (Some fv) \<longrightarrow>
        nodeDesiredZ N E D it aabb \<noteq> NaN)"


section \<open>The distance of an entry, as specified\<close>

text \<open>
  The specification's \<^verbatim>\<open>distanceSq\<close>: the squared distance, in the coordinates of the
  nominal zoom, between the corner of the tile and the centre of the view.
\<close>

definition spec_distanceSq :: "'f Env \<Rightarrow> OverscaledTileID \<Rightarrow> real" where
  "spec_distanceSq E t =
     (let s = 2 powr (nominalZ E - real (canonical_z t)) in
      sqrLen (2 powr nominalZ E * mc_x (centerCoord E) - real_of_int (canonical_x t) * s,
              2 powr nominalZ E * mc_y (centerCoord E) - real_of_int (canonical_y t) * s))"

text \<open>The same distance measured from the centre of the tile instead of its corner.\<close>

definition centre_distanceSq :: "'f Env \<Rightarrow> OverscaledTileID \<Rightarrow> real" where
  "centre_distanceSq E t =
     (let s = 2 powr (nominalZ E - real (canonical_z t)) in
      sqrLen (2 powr nominalZ E * mc_x (centerCoord E)
                - (real_of_int (canonical_x t) + 1 / 2) * s,
              2 powr nominalZ E * mc_y (centerCoord E)
                - (real_of_int (canonical_y t) + 1 / 2) * s))"


section \<open>Example invocations\<close>

text \<open>
  An arithmetic for the examples: exact on finite numbers, with the special values where
  doubles have them (a division by 0, an infinity minus itself or times 0, the arc tangent
  of an infinity, the cosine of an infinity). \<^verbatim>\<open>Math.round\<close> rounds a half up. Zeros
  carry no sign.
\<close>

fun exact_add :: "number \<Rightarrow> number \<Rightarrow> number" where
  "exact_add (Fin a) (Fin b) = Fin (a + b)"
| "exact_add NaN b = NaN"
| "exact_add a NaN = NaN"
| "exact_add PosInf NegInf = NaN"
| "exact_add NegInf PosInf = NaN"
| "exact_add PosInf b = PosInf"
| "exact_add NegInf b = NegInf"
| "exact_add a PosInf = PosInf"
| "exact_add a NegInf = NegInf"

definition negate :: "number \<Rightarrow> number" where
  "negate a = (case a of NaN \<Rightarrow> NaN | NegInf \<Rightarrow> PosInf | PosInf \<Rightarrow> NegInf | Fin r \<Rightarrow> Fin (- r))"

definition signed :: "real \<Rightarrow> number \<Rightarrow> number" where
  "signed r a = (if r = 0 then NaN else if 0 < r then a else negate a)"

fun exact_mul :: "number \<Rightarrow> number \<Rightarrow> number" where
  "exact_mul (Fin a) (Fin b) = Fin (a * b)"
| "exact_mul NaN b = NaN"
| "exact_mul a NaN = NaN"
| "exact_mul (Fin a) b = signed a b"
| "exact_mul a (Fin b) = signed b a"
| "exact_mul PosInf b = b"
| "exact_mul NegInf b = negate b"

fun exact_div :: "number \<Rightarrow> number \<Rightarrow> number" where
  "exact_div (Fin a) (Fin b) = (if b = 0 then signed a PosInf else Fin (a / b))"
| "exact_div NaN b = NaN"
| "exact_div a NaN = NaN"
| "exact_div (Fin a) b = Fin 0"
| "exact_div a (Fin b) = (if b < 0 then negate a else a)"
| "exact_div a b = NaN"

fun exact_atan :: "number \<Rightarrow> number" where
  "exact_atan (Fin a) = Fin (arctan a)"
| "exact_atan PosInf = Fin (pi / 2)"
| "exact_atan NegInf = Fin (- (pi / 2))"
| "exact_atan NaN = NaN"

fun exact_cos :: "number \<Rightarrow> number" where
  "exact_cos (Fin a) = Fin (cos a)"
| "exact_cos a = NaN"

fun exact_round :: "number \<Rightarrow> number" where
  "exact_round (Fin a) = Fin (real_of_int (round a))"
| "exact_round a = a"

fun exact_floor :: "number \<Rightarrow> number" where
  "exact_floor (Fin a) = Fin (real_of_int \<lfloor>a\<rfloor>)"
| "exact_floor a = a"

text \<open>
  Modelled from the spec: \<^verbatim>\<open>scaleZoom\<close> of \<^verbatim>\<open>transform_helper\<close>, which is not among the
  sources; the specification writes it as the base-2 logarithm. As the logarithm of
  doubles it is minus infinity at 0 and NaN below 0.
\<close>

fun exact_log2 :: "number \<Rightarrow> number" where
  "exact_log2 (Fin a) = (if a = 0 then NegInf else if a < 0 then NaN else Fin (log 2 a))"
| "exact_log2 PosInf = PosInf"
| "exact_log2 a = NaN"

definition exactNumerics :: Numerics where
  "exactNumerics =
     \<lparr>m_add = exact_add, m_mul = exact_mul, m_div = exact_div, m_atan = exact_atan,
      m_cos = exact_cos, m_round = exact_round, m_floor = exact_floor, m_PI = Fin pi,
      scaleZoom = exact_log2\<rparr>"

text \<open>
  Geometries: one whose frustum test answers \<^const>\<open>Partial\<close> for every box, one whose
  frustum contains every box, and one whose frustum only meets the boxes with their corner
  at the origin, all three with distances 0; one that is at distance 0 from the box of a
  root tile and at distance 1 from every other box; and one that is at distance 0 from a
  box that holds the point and at distance \<open>sqrt 3\<close> from any other. A camera straight
  above the centre of the map, with the desired zoom and the maximum zoom as parameters;
  the same with top padding, which turns variable zoom on.
\<close>

definition flatPrimitives :: "unit Primitives" where
  "flatPrimitives =
     \<lparr>intersectsFrustum = (\<lambda>b f. Partial), intersectsPlane = (\<lambda>b v. Partial),
      distanceX = (\<lambda>b p. 0), distanceY = (\<lambda>b p. 0)\<rparr>"

definition fullPrimitives :: "unit Primitives" where
  "fullPrimitives =
     \<lparr>intersectsFrustum = (\<lambda>b f. Full), intersectsPlane = (\<lambda>b v. Partial),
      distanceX = (\<lambda>b p. 0), distanceY = (\<lambda>b p. 0)\<rparr>"

definition cornerPrimitives :: "unit Primitives" where
  "cornerPrimitives =
     \<lparr>intersectsFrustum =
        (\<lambda>b f. if fst (aabb_min b) = 0 \<and> fst (snd (aabb_min b)) = 0 then Partial
               else None_IR),
      intersectsPlane = (\<lambda>b v. Partial),
      distanceX = (\<lambda>b p. 0), distanceY = (\<lambda>b p. 0)\<rparr>"

definition overheadTransform :: "real \<Rightarrow> real \<Rightarrow> Transform" where
  "overheadTransform dz mz =
     \<lparr>coveringZoomLevel = (\<lambda>opts. dz), tr_maxZoom = mz, tr_zoom = dz, tr_tileSize = 512,
      tr_elevation = 0, tr_pitch = 0, tr_fov = 120, tr_pitchBehavior = 1, tr_padding_top = 0,
      renderWorldCopies = False\<rparr>"

definition paddedTransform :: Transform where
  "paddedTransform = (overheadTransform 1 5)\<lparr>tr_padding_top := 1\<rparr>"

definition plainOptions :: CoveringTilesOptions where
  "plainOptions =
     \<lparr>tileSize = 512, minzoom = None, maxzoom = None, roundZoom = False,
      reparseOverscaled = False, terrain = None\<rparr>"

definition flatTerrain :: Terrain where
  "flatTerrain t = \<lparr>minElevation = None, maxElevation = None\<rparr>"

definition overheadCamera :: MercatorCoordinate where
  "overheadCamera = \<lparr>mc_x = 1 / 2, mc_y = 1 / 2, mc_z = 1\<rparr>"

definition mapCenter :: MercatorCoordinate where
  "mapCenter = \<lparr>mc_x = 1 / 2, mc_y = 1 / 2, mc_z = 0\<rparr>"

definition unitBox :: Aabb where
  "unitBox = \<lparr>aabb_min = (0, 0, 0), aabb_max = (1, 1, 0)\<rparr>"

definition rootPrimitives :: "unit Primitives" where
  "rootPrimitives =
     \<lparr>intersectsFrustum = (\<lambda>b f. Partial), intersectsPlane = (\<lambda>b v. Partial),
      distanceX = (\<lambda>b p. if fst (aabb_max b) - fst (aabb_min b) = 1 then 0 else 1),
      distanceY = (\<lambda>b p. 0)\<rparr>"

definition nearPrimitives :: "unit Primitives" where
  "nearPrimitives =
     \<lparr>intersectsFrustum = (\<lambda>b f. Partial), intersectsPlane = (\<lambda>b v. Partial),
      distanceX =
        (\<lambda>b p. if fst (aabb_min b) \<le> fst p \<and> fst p \<le> fst (aabb_max b) \<and>
                   fst (snd (aabb_min b)) \<le> snd p \<and> snd p \<le> fst (snd (aabb_max b))
                then 0 else sqrt 3),
      distanceY = (\<lambda>b p. 0)\<rparr>"

text \<open>
  A camera at height 1 above a view centre in the north-east of the map, with top padding,
  an unpitched zoom formula and the zoom cap of the library.
\<close>

definition cornerViewTransform :: Transform where
  "cornerViewTransform =
     (overheadTransform 1 22)\<lparr>tr_pitchBehavior := 0, tr_padding_top := 1\<rparr>"

definition cornerViewCamera :: MercatorCoordinate where
  "cornerViewCamera = \<lparr>mc_x = 7 / 8, mc_y = 1 / 8, mc_z = 1\<rparr>"

definition cornerViewCenter :: MercatorCoordinate where
  "cornerViewCenter = \<lparr>mc_x = 7 / 8, mc_y = 1 / 8, mc_z = 0\<rparr>"


section \<open>The loop, one iteration at a time\<close>

lemmas model_defs =
  coveringTiles_def coveringEnv_def initialStack_def newRootTile_def visit_def
  visibility_def isTileVisible_def planeValue_def emitOrSubdivide_def tileDesiredZ_def
  resultEntry_def children_def sortedTileIDs_def mercatorDetails_def
  provider_getTileAABB_def provider_getWrap_def provider_distanceToTile2d_def
  provider_allowVariableZoom_def hypot_def sqrLen_def shiftLeft_def ToInt32_def trunc_def

lemmas example_defs =
  exactNumerics_def signed_def negate_def
  flatPrimitives_def fullPrimitives_def cornerPrimitives_def rootPrimitives_def
  nearPrimitives_def overheadTransform_def paddedTransform_def cornerViewTransform_def
  plainOptions_def flatTerrain_def overheadCamera_def mapCenter_def cornerViewCamera_def
  cornerViewCenter_def unitBox_def

lemma traverse_Nil: "traverse N P E D [] result = Some (Inr result)"
  by (subst traverse.simps) simp

lemma traverse_Cons:
  "traverse N P E D (it # rest) result =
     (case visit N P E D it of
        Inl err \<Rightarrow> Some (Inl err)
      | Inr Culled \<Rightarrow> traverse N P E D rest result
      | Inr TooCoarse \<Rightarrow> traverse N P E D rest result
      | Inr (Emit r) \<Rightarrow> traverse N P E D rest (result @ [r])
      | Inr (Subdivide cs) \<Rightarrow> traverse N P E D (rev cs @ rest) result)"
  by (subst traverse.simps) simp

lemmas run_simps = model_defs example_defs traverse_Cons traverse_Nil Let_def

text \<open>The comparison that ends the descent, for a target that is a number.\<close>

lemma below_target:
  assumes "t \<noteq> NaN" "\<not> greaterEq (Fin k) (Math_min t (Fin m))"
  shows "\<exists>z. Math_min t (Fin m) = Fin z \<and> k < z \<and> z \<le> m"
  using assms by (cases t) auto

lemma reached_target:
  assumes "greaterEq (Fin k) (Math_min t (Fin m))"
  shows "t \<noteq> NaN"
  using assms by (cases t) auto

lemma emitOrSubdivide_Subdivide:
  "emitOrSubdivide E it t w fv = Subdivide cs \<Longrightarrow>
     cs = children it w fv \<and>
     \<not> greaterEq (Fin (real (se_zoom it))) (Math_min t (Fin (maxZoom E)))"
  by (auto simp: emitOrSubdivide_def Let_def split: if_splits)

lemma emitOrSubdivide_Emit:
  "emitOrSubdivide E it t w fv = Emit r \<Longrightarrow>
     r = resultEntry E it w t \<and>
     greaterEq (Fin (real (se_zoom it))) (Math_min t (Fin (maxZoom E))) \<and>
     minZoom E \<le> real (se_zoom it)"
  by (auto simp: emitOrSubdivide_def Let_def split: if_splits)

lemma emitOrSubdivide_TooCoarse:
  "emitOrSubdivide E it t w fv = TooCoarse \<Longrightarrow> real (se_zoom it) < minZoom E"
  by (auto simp: emitOrSubdivide_def Let_def split: if_splits)

lemma emitOrSubdivide_not_Culled: "emitOrSubdivide E it t w fv \<noteq> Culled"
  by (simp add: emitOrSubdivide_def Let_def)

text \<open>What an iteration returns when the box of the node could be built.\<close>

lemma visit_cases:
  assumes "visit N P E D it = Inr v"
  obtains (culled) aabb where
      "nodeBox E D it = Inr aabb" "visibility P E it aabb = Inr None" "v = Culled"
  | (passed) aabb fv where
      "nodeBox E D it = Inr aabb" "visibility P E it aabb = Inr (Some fv)"
      "emitOrSubdivide E it (nodeDesiredZ N E D it aabb) (nodeWrap E D it) fv = v"
  using assms
  by (auto simp: visit_def Let_def split: sum.splits option.splits)

lemma visit_Subdivide:
  assumes "visit N P E D it = Inr (Subdivide cs)"
  shows "\<exists>aabb fv. nodeBox E D it = Inr aabb \<and> visibility P E it aabb = Inr (Some fv) \<and>
           cs = children it (nodeWrap E D it) fv \<and>
           \<not> greaterEq (Fin (real (se_zoom it)))
               (Math_min (nodeDesiredZ N E D it aabb) (Fin (maxZoom E)))"
  using assms
  by (elim visit_cases) (auto dest: emitOrSubdivide_Subdivide)

lemma visit_Emit:
  assumes "visit N P E D it = Inr (Emit r)"
  shows "\<exists>aabb. nodeBox E D it = Inr aabb \<and>
           r = resultEntry E it (nodeWrap E D it) (nodeDesiredZ N E D it aabb) \<and>
           greaterEq (Fin (real (se_zoom it)))
             (Math_min (nodeDesiredZ N E D it aabb) (Fin (maxZoom E))) \<and>
           minZoom E \<le> real (se_zoom it)"
  using assms
  by (elim visit_cases) (auto dest: emitOrSubdivide_Emit)

lemma visit_fullyVisible:
  assumes "se_fullyVisible it"
  shows "visit N P E D it =
           (case nodeBox E D it of
              Inl err \<Rightarrow> Inl err
            | Inr aabb \<Rightarrow>
                Inr (emitOrSubdivide E it (nodeDesiredZ N E D it aabb) (nodeWrap E D it) True))"
  using assms by (simp add: visit_def visibility_def Let_def split: sum.splits)

lemma visibility_fullyVisible:
  "se_fullyVisible it \<Longrightarrow> visibility P E it aabb = Inr (Some True)"
  by (simp add: visibility_def)

lemma length_children: "length (children it w fv) = 4"
  by (simp add: children_def)

lemma se_zoom_children: "c \<in> set (children it w fv) \<Longrightarrow> se_zoom c = se_zoom it + 1"
  by (auto simp: children_def)

lemma se_fullyVisible_children: "c \<in> set (children it w fv) \<Longrightarrow> se_fullyVisible c = fv"
  by (auto simp: children_def)

lemma se_zoom_initialStack: "it \<in> set (initialStack tr) \<Longrightarrow> se_zoom it = 0"
  by (auto simp: initialStack_def newRootTile_def split: if_splits)

lemma canonical_resultEntry [simp]:
  "canonical_z (tileID (resultEntry E it w t)) = se_zoom it"
  "canonical_x (tileID (resultEntry E it w t)) = se_x it"
  "canonical_y (tileID (resultEntry E it w t)) = se_y it"
  by (simp_all add: resultEntry_def Let_def)

lemma overscaledZ_resultEntry:
  "overscaledZ (tileID (resultEntry E it w t)) =
     (if real (se_zoom it) = maxZoom E \<and> reparseOverscaled (options E) then t
      else Fin (real (se_zoom it)))"
  by (simp add: resultEntry_def Let_def)

lemma distanceSq_resultEntry:
  "distanceSq (resultEntry E it w t) =
     sqrLen (fst (centerPoint E) - 1 / 2 - real_of_int (se_x it),
             fst (snd (centerPoint E)) - 1 / 2 - real_of_int (se_y it))"
  by (simp add: resultEntry_def Let_def)

lemma tileDesiredZ_nonneg:
  "tileDesiredZ N E v d \<noteq> NaN \<Longrightarrow> greaterEq (tileDesiredZ N E v d) (Fin 0)"
proof -
  have "\<And>t. Math_max (Fin 0) t \<noteq> NaN \<Longrightarrow> greaterEq (Math_max (Fin 0) t) (Fin 0)"
    subgoal for t by (cases t) auto
    done
  then show "tileDesiredZ N E v d \<noteq> NaN \<Longrightarrow> greaterEq (tileDesiredZ N E v d) (Fin 0)"
    by (simp add: tileDesiredZ_def Let_def)
qed

lemma tileDesiredZ_fixed: "tileDesiredZ N E False d = Fin (max 0 (desiredZ E))"
  by (simp add: tileDesiredZ_def Let_def)

lemma nominalZ_coveringEnv:
  "nominalZ (coveringEnv tr fr pl cam cen opts) =
     min (max 0 (desiredZ (coveringEnv tr fr pl cam cen opts)))
         (maxZoom (coveringEnv tr fr pl cam cen opts))"
  by (simp add: coveringEnv_def Let_def)

lemma centerPoint_coveringEnv:
  "centerPoint (coveringEnv tr fr pl cam cen opts) =
     (2 powr nominalZ (coveringEnv tr fr pl cam cen opts) * mc_x cen,
      2 powr nominalZ (coveringEnv tr fr pl cam cen opts) * mc_y cen, 0)"
  "centerCoord (coveringEnv tr fr pl cam cen opts) = cen"
  "options (coveringEnv tr fr pl cam cen opts) = opts"
  by (simp_all add: coveringEnv_def Let_def)


section \<open>The loop as a whole\<close>

text \<open>
  Induction along the iterations of a run of the loop that returns.
\<close>

lemma traverse_induct [consumes 1, case_names Nil Fail Culled TooCoarse Emit Subdivide]:
  assumes run: "traverse N P E D stack result = Some out"
    and nil: "\<And>result. Q [] result (Inr result)"
    and fail: "\<And>it rest result err. visit N P E D it = Inl err \<Longrightarrow>
                   Q (it # rest) result (Inl err)"
    and culled: "\<And>it rest result out. visit N P E D it = Inr Culled \<Longrightarrow>
                   Q rest result out \<Longrightarrow> Q (it # rest) result out"
    and coarse: "\<And>it rest result out. visit N P E D it = Inr TooCoarse \<Longrightarrow>
                   Q rest result out \<Longrightarrow> Q (it # rest) result out"
    and emit: "\<And>it rest result r out. visit N P E D it = Inr (Emit r) \<Longrightarrow>
                   Q rest (result @ [r]) out \<Longrightarrow> Q (it # rest) result out"
    and subdivide: "\<And>it rest result cs out. visit N P E D it = Inr (Subdivide cs) \<Longrightarrow>
                   Q (rev cs @ rest) result out \<Longrightarrow> Q (it # rest) result out"
  shows "Q stack result out"
proof -
  let ?Pa = "\<lambda>x y. case x of (((((N', P'), E'), D'), stack), result) \<Rightarrow>
               N' = N \<and> P' = P \<and> E' = E \<and> D' = D \<longrightarrow> Q stack result y"
  have "?Pa (((((N, P), E), D), stack), result) out"
  proof (rule traverse.raw_induct [where Pa = ?Pa, OF _ run])
    fix loop N' P' E' D' stack result y
    assume IH: "\<And>N' P' E' D' stack result y.
                  loop N' P' E' D' stack result = Some y \<Longrightarrow>
                  ?Pa (((((N', P'), E'), D'), stack), result) y"
      and step: "(case stack of
                    [] \<Rightarrow> Some (Inr result)
                  | it # rest \<Rightarrow>
                      (case visit N' P' E' D' it of
                         Inl err \<Rightarrow> Some (Inl err)
                       | Inr (Emit r) \<Rightarrow> loop N' P' E' D' rest (result @ [r])
                       | Inr (Subdivide cs) \<Rightarrow> loop N' P' E' D' (rev cs @ rest) result
                       | Inr _ \<Rightarrow> loop N' P' E' D' rest result)) = Some y"
    show "?Pa (((((N', P'), E'), D'), stack), result) y"
    proof (cases stack)
      case Nil
      with step show ?thesis by (auto intro: nil)
    next
      case (Cons it rest)
      show ?thesis
      proof (clarsimp)
        assume eq: "N' = N" "P' = P" "E' = E" "D' = D"
        show "Q stack result y"
        proof (cases "visit N P E D it")
          case (Inl err)
          with step eq Cons show ?thesis by (auto intro: fail)
        next
          case (Inr v)
          show ?thesis
          proof (cases v)
            case Culled
            with Inr step eq Cons IH [of N P E D rest result y] show ?thesis
              by (auto intro: culled)
          next
            case TooCoarse
            with Inr step eq Cons IH [of N P E D rest result y] show ?thesis
              by (auto intro: coarse)
          next
            case (Emit r)
            with Inr step eq Cons IH [of N P E D rest "result @ [r]" y] show ?thesis
              by (auto intro: emit)
          next
            case (Subdivide cs)
            with Inr step eq Cons IH [of N P E D "rev cs @ rest" result y] show ?thesis
              by (auto intro: subdivide)
          qed
        qed
      qed
    qed
  qed
  then show ?thesis by simp
qed

text \<open>
  An invariant of the nodes on the stack gives a property of every emitted entry.
\<close>

lemma traverse_invariant:
  assumes step: "\<And>it cs c. I it \<Longrightarrow> visit N P E D it = Inr (Subdivide cs) \<Longrightarrow> c \<in> set cs \<Longrightarrow> I c"
    and emit: "\<And>it r. I it \<Longrightarrow> visit N P E D it = Inr (Emit r) \<Longrightarrow> R r"
    and run: "traverse N P E D stack result = Some (Inr out)"
    and stack: "\<forall>it \<in> set stack. I it"
    and result: "\<forall>r \<in> set result. R r"
  shows "\<forall>r \<in> set out. R r"
proof -
  have "(\<forall>it \<in> set stack. I it) \<longrightarrow> (\<forall>r \<in> set result. R r) \<longrightarrow>
        (\<forall>out'. out = Inr out' \<longrightarrow> (\<forall>r \<in> set out'. R r))"
    if "traverse N P E D stack result = Some out" for out
    using that
  proof (induction rule: traverse_induct)
    case (Nil result)
    then show ?case by simp
  next
    case (Fail it rest result err)
    then show ?case by simp
  next
    case (Culled it rest result out)
    then show ?case by simp
  next
    case (TooCoarse it rest result out)
    then show ?case by simp
  next
    case (Emit it rest result r out)
    show ?case
    proof (intro impI)
      assume a: "\<forall>it \<in> set (it # rest). I it" "\<forall>r \<in> set result. R r"
      with Emit.hyps have "R r" by (auto intro: emit)
      with a Emit.IH show "\<forall>out'. out = Inr out' \<longrightarrow> (\<forall>r \<in> set out'. R r)" by auto
    qed
  next
    case (Subdivide it rest result cs out)
    show ?case
    proof (intro impI)
      assume a: "\<forall>it \<in> set (it # rest). I it" "\<forall>r \<in> set result. R r"
      with Subdivide.hyps have "\<forall>c \<in> set cs. I c" by (auto intro: step)
      with a Subdivide.IH show "\<forall>out'. out = Inr out' \<longrightarrow> (\<forall>r \<in> set out'. R r)" by auto
    qed
  qed
  from this [OF run] stack result show ?thesis by simp
qed


lemma traverse_emitted:
  assumes "traverse N P E D stack [] = Some (Inr result)" "r \<in> set result"
  shows "\<exists>it. visit N P E D it = Inr (Emit r)"
  using traverse_invariant [where I = "\<lambda>it. True"
      and R = "\<lambda>r. \<exists>it. visit N P E D it = Inr (Emit r)"
      and N = N and P = P and E = E and D = D and stack = stack and result = "[]"
      and out = result] assms
  by auto

lemma coveringTiles_result:
  assumes "coveringTiles N P tr fr pl cam cen opts D = Some (Inr ids)"
  obtains result where
    "traverse N P (coveringEnv tr fr pl cam cen opts) D (initialStack tr) [] = Some (Inr result)"
    "ids = sortedTileIDs result"
  using assms by (auto simp: coveringTiles_def split: option.splits sum.splits)

lemma set_sortedTileIDs: "set (sortedTileIDs result) = tileID ` set result"
  by (simp add: sortedTileIDs_def)


section \<open>Pushes and descendants\<close>

lemma pushesE:
  assumes "pushes N P E D it c"
  obtains cs where "visit N P E D it = Inr (Subdivide cs)" "c \<in> set cs"
  using assms by (auto simp: pushes_def split: sum.splits Visit.splits)

lemma pushes_fullyVisible:
  assumes "pushes N P E D it c" "nodeBox E D it = Inr aabb"
    "visibility P E it aabb = Inr (Some True)"
  shows "se_fullyVisible c"
proof -
  from assms(1) obtain cs where cs: "visit N P E D it = Inr (Subdivide cs)" "c \<in> set cs"
    by (rule pushesE)
  from visit_Subdivide [OF cs(1)] assms(2,3) have "cs = children it (nodeWrap E D it) True"
    by auto
  with cs(2) show ?thesis by (simp add: se_fullyVisible_children)
qed

lemma pushes_inherits:
  assumes "pushes N P E D it c" "se_fullyVisible it"
  shows "se_fullyVisible c"
proof -
  from assms(1) obtain cs where cs: "visit N P E D it = Inr (Subdivide cs)" "c \<in> set cs"
    by (rule pushesE)
  from visit_Subdivide [OF cs(1)] obtain aabb fv where
    "nodeBox E D it = Inr aabb" "visibility P E it aabb = Inr (Some fv)"
    by blast
  with assms show ?thesis
    by (auto intro: pushes_fullyVisible simp: visibility_fullyVisible)
qed

lemma descendants_fullyVisible:
  assumes "(pushes N P E D)\<^sup>+\<^sup>+ a d" "nodeBox E D a = Inr aabb"
    "visibility P E a aabb = Inr (Some True)"
  shows "se_fullyVisible d"
  using assms
  by (induction rule: tranclp_induct) (auto intro: pushes_fullyVisible pushes_inherits)

lemma pushes_zoom:
  assumes "pushes N P E D it c"
  shows "se_zoom c = se_zoom it + 1"
proof -
  from assms obtain cs where cs: "visit N P E D it = Inr (Subdivide cs)" "c \<in> set cs"
    by (rule pushesE)
  from visit_Subdivide [OF cs(1)] obtain w fv where "cs = children it w fv"
    by auto
  with cs(2) show ?thesis
    by (auto simp: se_zoom_children)
qed

lemma pushes_Subdivide:
  "visit N P E D it = Inr (Subdivide cs) \<Longrightarrow> c \<in> set cs \<Longrightarrow> pushes N P E D it c"
  by (simp add: pushes_def)

lemma reaches_leaf:
  assumes "(pushes N P E D)\<^sup>*\<^sup>* it d"
  obtains (here) "d = it"
  | (below) cs c where "visit N P E D it = Inr (Subdivide cs)" "c \<in> set cs"
      "(pushes N P E D)\<^sup>*\<^sup>* c d"
  using assms
proof (cases rule: converse_rtranclpE)
  case base
  then have "d = it" by simp
  then show ?thesis by (rule here)
next
  case (step c)
  from step(1) obtain cs where "visit N P E D it = Inr (Subdivide cs)" "c \<in> set cs"
    by (rule pushesE)
  with step(2) show ?thesis by (intro below)
qed


section \<open>Targets that are numbers\<close>

text \<open>
  A node whose target is a number is subdivided only below its target capped at the
  maximum zoom, hence below the maximum zoom.
\<close>

lemma subdivided_below:
  assumes "visit N P E D it = Inr (Subdivide cs)" "nodeBox E D it = Inr aabb"
    "nodeDesiredZ N E D it aabb \<noteq> NaN"
  shows "\<exists>z. Math_min (nodeDesiredZ N E D it aabb) (Fin (maxZoom E)) = Fin z \<and>
           real (se_zoom it) < z \<and> z \<le> maxZoom E"
proof -
  from visit_Subdivide [OF assms(1)] assms(2)
  have "\<not> greaterEq (Fin (real (se_zoom it)))
            (Math_min (nodeDesiredZ N E D it aabb) (Fin (maxZoom E)))"
    by auto
  with assms(3) show ?thesis
    by (rule below_target)
qed

lemma targetsAreNumbersD:
  assumes "targetsAreNumbers N P E D stack" "seed \<in> set stack"
    "(pushes N P E D)\<^sup>*\<^sup>* seed it" "nodeBox E D it = Inr aabb"
    "visibility P E it aabb = Inr (Some fv)"
  shows "nodeDesiredZ N E D it aabb \<noteq> NaN"
  using assms unfolding targetsAreNumbers_def by blast

text \<open>Without variable zoom every node asks for the desired zoom, a number.\<close>

lemma targetsAreNumbers_fixed:
  "\<not> allowVariableZoom D \<Longrightarrow> targetsAreNumbers N P E D stack"
  by (simp add: targetsAreNumbers_def tileDesiredZ_fixed)

lemma targetsAreNumbers_top:
  assumes "targetsAreNumbers N P E D (it # rest)" "visit N P E D it = Inr (Subdivide cs)"
  shows "real (se_zoom it) < maxZoom E"
proof -
  from visit_Subdivide [OF assms(2)] obtain aabb fv where
    box: "nodeBox E D it = Inr aabb" and passed: "visibility P E it aabb = Inr (Some fv)"
    by blast
  have "nodeDesiredZ N E D it aabb \<noteq> NaN"
    by (rule targetsAreNumbersD [OF assms(1) _ _ box passed, of it]) simp_all
  from subdivided_below [OF assms(2) box this] show ?thesis
    by auto
qed

lemma targetsAreNumbers_rest:
  assumes "targetsAreNumbers N P E D (it # rest)"
  shows "targetsAreNumbers N P E D rest"
  using assms unfolding targetsAreNumbers_def by auto

lemma targetsAreNumbers_children:
  assumes "targetsAreNumbers N P E D (it # rest)" "visit N P E D it = Inr (Subdivide cs)"
  shows "targetsAreNumbers N P E D (rev cs @ rest)"
  unfolding targetsAreNumbers_def
proof (intro allI impI, elim conjE)
  fix seed d aabb fv
  assume seed: "seed \<in> set (rev cs @ rest)" and reach: "(pushes N P E D)\<^sup>*\<^sup>* seed d"
    and box: "nodeBox E D d = Inr aabb" and passed: "visibility P E d aabb = Inr (Some fv)"
  show "nodeDesiredZ N E D d aabb \<noteq> NaN"
  proof (cases "seed \<in> set cs")
    case True
    with assms(2) have "pushes N P E D it seed" by (rule pushes_Subdivide)
    from this reach have "(pushes N P E D)\<^sup>*\<^sup>* it d"
      by (rule converse_rtranclp_into_rtranclp)
    then show ?thesis
      by (rule targetsAreNumbersD [OF assms(1) _ _ box passed, rotated]) simp
  next
    case False
    with seed have "seed \<in> set (it # rest)" by simp
    then show ?thesis
      using reach box passed by (rule targetsAreNumbersD [OF assms(1)])
  qed
qed

lemma stackWeight_children:
  assumes "real (se_zoom it) < maxZoom E"
  shows "stackWeight E (rev (children it w fv)) < nodeWeight E it"
proof -
  from assms have "se_zoom it < depthBound E"
    unfolding depthBound_def by linarith
  then have k: "depthBound E - se_zoom it = Suc (depthBound E - Suc (se_zoom it))"
    by simp
  show ?thesis
    by (simp add: stackWeight_def children_def nodeWeight_def k)
qed

lemma nodeWeight_pos: "0 < nodeWeight E it"
  by (simp add: nodeWeight_def)

text \<open>
  When no zoom computed for a node is NaN the weight of the stack goes down at each
  iteration, and the loop returns.
\<close>

lemma traverse_returns:
  assumes "targetsAreNumbers N P E D stack"
  shows "\<exists>r. traverse N P E D stack result = Some r"
  using assms
proof (induction "stackWeight E stack" arbitrary: stack result rule: less_induct)
  case less
  show ?case
  proof (cases stack)
    case Nil
    then show ?thesis by (simp add: traverse_Nil)
  next
    case (Cons it rest)
    have rest: "stackWeight E rest < stackWeight E stack"
      using nodeWeight_pos [of E it] by (simp add: Cons stackWeight_def)
    from less.prems have numbers: "targetsAreNumbers N P E D rest"
      unfolding Cons by (rule targetsAreNumbers_rest)
    show ?thesis
    proof (cases "visit N P E D it")
      case (Inl err)
      then show ?thesis by (simp add: Cons traverse_Cons)
    next
      case (Inr v)
      show ?thesis
      proof (cases v)
        case Culled
        with Inr less.hyps [OF rest numbers] show ?thesis
          by (simp add: Cons traverse_Cons)
      next
        case TooCoarse
        with Inr less.hyps [OF rest numbers] show ?thesis
          by (simp add: Cons traverse_Cons)
      next
        case (Emit r)
        with Inr less.hyps [OF rest numbers] show ?thesis
          by (simp add: Cons traverse_Cons)
      next
        case (Subdivide cs)
        with Inr have v: "visit N P E D it = Inr (Subdivide cs)" by simp
        from less.prems have top: "targetsAreNumbers N P E D (it # rest)"
          by (simp add: Cons)
        from visit_Subdivide [OF v] obtain w fv where cs: "cs = children it w fv"
          by auto
        have "stackWeight E (rev cs @ rest) < stackWeight E stack"
          using stackWeight_children [of it E w fv] targetsAreNumbers_top [OF top v]
          by (simp add: cs Cons stackWeight_def)
        from less.hyps [OF this targetsAreNumbers_children [OF top v]] v show ?thesis
          by (simp add: Cons traverse_Cons)
      qed
    qed
  qed
qed

lemma coveringTiles_returns:
  assumes "targetsAreNumbers N P (coveringEnv tr fr pl cam cen opts) D (initialStack tr)"
  shows "\<exists>r. coveringTiles N P tr fr pl cam cen opts D = Some r"
proof -
  from traverse_returns [OF assms] obtain r where
    "traverse N P (coveringEnv tr fr pl cam cen opts) D (initialStack tr) [] = Some r"
    by blast
  then show ?thesis
    by (cases r) (simp_all add: coveringTiles_def)
qed

text \<open>The depth of the nodes, when no zoom computed for a node is NaN.\<close>

lemma reachable_depth:
  assumes "(pushes N P E D)\<^sup>*\<^sup>* seed it" "targetsAreNumbers N P E D stack"
    "seed \<in> set stack" "se_zoom seed = 0"
  shows "se_zoom it \<le> depthBound E"
  using assms
proof (induction rule: rtranclp_induct)
  case base
  then show ?case by simp
next
  case (step b c)
  from step.hyps(2) obtain cs where cs: "visit N P E D b = Inr (Subdivide cs)" "c \<in> set cs"
    by (rule pushesE)
  from visit_Subdivide [OF cs(1)] obtain aabb fv where
    box: "nodeBox E D b = Inr aabb" and passed: "visibility P E b aabb = Inr (Some fv)"
    by blast
  from targetsAreNumbersD [OF step.prems(1,2) step.hyps(1) box passed]
  have "nodeDesiredZ N E D b aabb \<noteq> NaN" .
  from subdivided_below [OF cs(1) box this] have "real (se_zoom b) < maxZoom E"
    by auto
  then have "se_zoom b < depthBound E"
    unfolding depthBound_def by linarith
  with pushes_zoom [OF step.hyps(2)] show ?case by simp
qed

text \<open>Every entry the loop returns was emitted by a node reached from the stack.\<close>

lemma traverse_sound:
  assumes "traverse N P E D stack [] = Some (Inr out)" "r \<in> set out"
  shows "\<exists>seed it. seed \<in> set stack \<and> (pushes N P E D)\<^sup>*\<^sup>* seed it \<and>
           visit N P E D it = Inr (Emit r)"
proof -
  have "\<forall>r \<in> set out. \<exists>it. (\<exists>seed \<in> set stack. (pushes N P E D)\<^sup>*\<^sup>* seed it) \<and>
          visit N P E D it = Inr (Emit r)"
  proof (rule traverse_invariant
      [where I = "\<lambda>it. \<exists>seed \<in> set stack. (pushes N P E D)\<^sup>*\<^sup>* seed it"
        and stack = stack and result = "[]", OF _ _ assms(1)])
    fix it cs c
    assume "\<exists>seed \<in> set stack. (pushes N P E D)\<^sup>*\<^sup>* seed it"
      and v: "visit N P E D it = Inr (Subdivide cs)" and c: "c \<in> set cs"
    then obtain seed where seed: "seed \<in> set stack" "(pushes N P E D)\<^sup>*\<^sup>* seed it"
      by blast
    from v c have "pushes N P E D it c" by (rule pushes_Subdivide)
    with seed(2) have "(pushes N P E D)\<^sup>*\<^sup>* seed c"
      by (rule rtranclp.rtrancl_into_rtrancl)
    with seed(1) show "\<exists>seed \<in> set stack. (pushes N P E D)\<^sup>*\<^sup>* seed c"
      by blast
  next
    fix it r
    assume "\<exists>seed \<in> set stack. (pushes N P E D)\<^sup>*\<^sup>* seed it" "visit N P E D it = Inr (Emit r)"
    then show "\<exists>it. (\<exists>seed \<in> set stack. (pushes N P E D)\<^sup>*\<^sup>* seed it) \<and>
                 visit N P E D it = Inr (Emit r)"
      by blast
  next
    show "\<forall>it \<in> set stack. \<exists>seed \<in> set stack. (pushes N P E D)\<^sup>*\<^sup>* seed it"
      by blast
  qed simp
  with assms(2) show ?thesis by blast
qed

text \<open>
  A node that does not subdivide reaches only itself: an entry emitted below the top of
  the stack is its own, or comes from the rest of the stack.
\<close>

lemma leaf_of_rest:
  assumes prems: "r \<in> set result \<or>
     (\<exists>it \<in> set (it0 # rest). \<exists>d. (pushes N P E D)\<^sup>*\<^sup>* it d \<and> visit N P E D d = Inr (Emit r))"
    and none: "\<And>cs. visit N P E D it0 \<noteq> Inr (Subdivide cs)"
    and leaf: "visit N P E D it0 = Inr (Emit r) \<Longrightarrow> r \<in> set result'"
    and sub: "set result \<subseteq> set result'"
  shows "r \<in> set result' \<or>
     (\<exists>it \<in> set rest. \<exists>d. (pushes N P E D)\<^sup>*\<^sup>* it d \<and> visit N P E D d = Inr (Emit r))"
proof -
  consider (old) "r \<in> set result"
    | (top) d where "(pushes N P E D)\<^sup>*\<^sup>* it0 d" "visit N P E D d = Inr (Emit r)"
    | (deeper) it d where "it \<in> set rest" "(pushes N P E D)\<^sup>*\<^sup>* it d"
        "visit N P E D d = Inr (Emit r)"
    using prems by auto
  then show ?thesis
  proof cases
    case old
    with sub show ?thesis by blast
  next
    case top
    from top(1) have "d = it0"
    proof (cases rule: reaches_leaf)
      case here
      then show ?thesis .
    next
      case (below cs c)
      from none [of cs] below(1) show ?thesis by blast
    qed
    with top(2) leaf show ?thesis by simp
  next
    case deeper
    then show ?thesis by blast
  qed
qed

text \<open>
  Every node reached from the stack is visited: when the loop returns a list, the list
  holds the entry of every such node that emits one.
\<close>

lemma traverse_complete:
  assumes run: "traverse N P E D stack result = Some (Inr out)"
    and r: "r \<in> set result \<or>
     (\<exists>it \<in> set stack. \<exists>d. (pushes N P E D)\<^sup>*\<^sup>* it d \<and> visit N P E D d = Inr (Emit r))"
  shows "r \<in> set out"
proof -
  have "r \<in> set result \<or>
          (\<exists>it \<in> set stack. \<exists>d. (pushes N P E D)\<^sup>*\<^sup>* it d \<and> visit N P E D d = Inr (Emit r)) \<longrightarrow>
        (\<forall>out'. out = Inr out' \<longrightarrow> r \<in> set out')"
    if "traverse N P E D stack result = Some out" for out
    using that
  proof (induction rule: traverse_induct)
    case (Nil result)
    then show ?case by simp
  next
    case (Fail it rest result err)
    then show ?case by simp
  next
    case (Culled it rest result out)
    show ?case
    proof (intro impI)
      assume "r \<in> set result \<or>
        (\<exists>it \<in> set (it # rest). \<exists>d. (pushes N P E D)\<^sup>*\<^sup>* it d \<and> visit N P E D d = Inr (Emit r))"
      then have "r \<in> set result \<or>
         (\<exists>it \<in> set rest. \<exists>d. (pushes N P E D)\<^sup>*\<^sup>* it d \<and> visit N P E D d = Inr (Emit r))"
        by (rule leaf_of_rest) (simp_all add: Culled.hyps)
      with Culled.IH show "\<forall>out'. out = Inr out' \<longrightarrow> r \<in> set out'" by blast
    qed
  next
    case (TooCoarse it rest result out)
    show ?case
    proof (intro impI)
      assume "r \<in> set result \<or>
        (\<exists>it \<in> set (it # rest). \<exists>d. (pushes N P E D)\<^sup>*\<^sup>* it d \<and> visit N P E D d = Inr (Emit r))"
      then have "r \<in> set result \<or>
         (\<exists>it \<in> set rest. \<exists>d. (pushes N P E D)\<^sup>*\<^sup>* it d \<and> visit N P E D d = Inr (Emit r))"
        by (rule leaf_of_rest) (simp_all add: TooCoarse.hyps)
      with TooCoarse.IH show "\<forall>out'. out = Inr out' \<longrightarrow> r \<in> set out'" by blast
    qed
  next
    case (Emit it rest result r0 out)
    show ?case
    proof (intro impI)
      assume "r \<in> set result \<or>
        (\<exists>it \<in> set (it # rest). \<exists>d. (pushes N P E D)\<^sup>*\<^sup>* it d \<and> visit N P E D d = Inr (Emit r))"
      then have "r \<in> set (result @ [r0]) \<or>
         (\<exists>it \<in> set rest. \<exists>d. (pushes N P E D)\<^sup>*\<^sup>* it d \<and> visit N P E D d = Inr (Emit r))"
        by (rule leaf_of_rest) (auto simp: Emit.hyps)
      with Emit.IH show "\<forall>out'. out = Inr out' \<longrightarrow> r \<in> set out'" by blast
    qed
  next
    case (Subdivide it rest result cs out)
    show ?case
    proof (intro impI)
      assume "r \<in> set result \<or>
        (\<exists>it \<in> set (it # rest). \<exists>d. (pushes N P E D)\<^sup>*\<^sup>* it d \<and> visit N P E D d = Inr (Emit r))"
      then consider (old) "r \<in> set result"
        | (top) d where "(pushes N P E D)\<^sup>*\<^sup>* it d" "visit N P E D d = Inr (Emit r)"
        | (deeper) it' d where "it' \<in> set rest" "(pushes N P E D)\<^sup>*\<^sup>* it' d"
            "visit N P E D d = Inr (Emit r)"
        by auto
      then have "r \<in> set result \<or>
         (\<exists>it \<in> set (rev cs @ rest). \<exists>d. (pushes N P E D)\<^sup>*\<^sup>* it d \<and>
            visit N P E D d = Inr (Emit r))"
      proof cases
        case old
        then show ?thesis by simp
      next
        case top
        from top(1) show ?thesis
        proof (cases rule: reaches_leaf)
          case here
          with top(2) Subdivide.hyps show ?thesis by simp
        next
          case (below cs' c)
          with Subdivide.hyps have "c \<in> set cs" by simp
          with below(3) top(2) show ?thesis by auto
        qed
      next
        case deeper
        then show ?thesis by auto
      qed
      with Subdivide.IH show "\<forall>out'. out = Inr out' \<longrightarrow> r \<in> set out'" by blast
    qed
  qed
  from this [OF run] r show ?thesis by simp
qed

section \<open>The planar routine never returns a list\<close>

lemma mercatorTraverse_Nil: "mercatorTraverse N P E [] result = Some (Inr result)"
  by (subst mercatorTraverse.simps) simp

lemma mercatorTraverse_Cons:
  "mercatorTraverse N P E (it # rest) result =
     (case mercatorVisit N P E it of
        Inl err \<Rightarrow> Some (Inl err)
      | Inr Culled \<Rightarrow> mercatorTraverse N P E rest result
      | Inr TooCoarse \<Rightarrow> mercatorTraverse N P E rest result
      | Inr (Emit r) \<Rightarrow> mercatorTraverse N P E rest (result @ [r])
      | Inr (Subdivide cs) \<Rightarrow> mercatorTraverse N P E (rev cs @ rest) result)"
  by (subst mercatorTraverse.simps) simp

lemmas mercator_defs =
  mercatorCoveringTiles_def mercatorVisit_def mercatorVisibility_def getTileAABB_def
  getWrap_def distanceToTile2d_def allowZariableZoom_def mercatorTraverse_Cons
  mercatorTraverse_Nil

text \<open>
  The first node popped is a root, which is not yet fully visible: with a terrain
  provider its box cannot be built, without one the visibility test calls
  \<^verbatim>\<open>intersectsFrustum\<close> on the plane.
\<close>

lemma mercatorVisit_root:
  "mercatorVisit N P E (newRootTile w) =
     Inl (case terrain (options E) of None \<Rightarrow> TypeError | Some t \<Rightarrow> ReferenceError)"
  by (cases "plane E")
     (simp_all add: mercatorVisit_def mercatorVisibility_def getTileAABB_def isTileVisible_def
        planeValue_def newRootTile_def Let_def split: option.splits)

lemma mercatorCoveringTiles_raises:
  "mercatorCoveringTiles N P tr fr pl cam cen opts =
     Some (Inl (case terrain opts of None \<Rightarrow> TypeError | Some t \<Rightarrow> ReferenceError))"
  by (simp add: mercatorCoveringTiles_def initialStack_def mercatorTraverse_Cons
      mercatorVisit_root centerPoint_coveringEnv)

text \<open>The engine with the planar provider raises nothing.\<close>

lemma visit_mercatorDetails_no_error:
  "visit N P E (mercatorDetails P tr opts) it \<noteq> Inl err"
  by (simp add: visit_def visibility_def isTileVisible_def mercatorDetails_def planeValue_def
      Let_def split: option.splits)

lemma traverse_mercatorDetails_no_error:
  "traverse N P E (mercatorDetails P tr opts) stack result \<noteq> Some (Inl err)"
proof -
  have "out \<noteq> Inl err"
    if "traverse N P E (mercatorDetails P tr opts) stack result = Some out" for out
    using that
    by (induction rule: traverse_induct) (simp_all add: visit_mercatorDetails_no_error)
  then show ?thesis by blast
qed

lemma coveringTiles_mercatorDetails_no_error:
  "coveringTiles N P tr fr pl cam cen opts (mercatorDetails P tr opts) \<noteq> Some (Inl err)"
  using traverse_mercatorDetails_no_error
    [of N P "coveringEnv tr fr pl cam cen opts" tr opts "initialStack tr" "[]" err]
  by (auto simp: coveringTiles_def split: option.splits sum.splits)


section \<open>Runs of the example invocations\<close>

lemma run_overhead_1:
  "coveringTiles exactNumerics flatPrimitives (overheadTransform 1 22) () None overheadCamera
     mapCenter plainOptions
     (mercatorDetails flatPrimitives (overheadTransform 1 22) plainOptions) =
   Some (Inr [\<lparr>overscaledZ = Fin 1, wrap = 0, canonical_z = 1, canonical_x = 1, canonical_y = 1\<rparr>,
              \<lparr>overscaledZ = Fin 1, wrap = 0, canonical_z = 1, canonical_x = 0, canonical_y = 1\<rparr>,
              \<lparr>overscaledZ = Fin 1, wrap = 0, canonical_z = 1, canonical_x = 1, canonical_y = 0\<rparr>,
              \<lparr>overscaledZ = Fin 1, wrap = 0, canonical_z = 1, canonical_x = 0, canonical_y = 0\<rparr>])"
  by (simp add: run_simps)

lemma run_overhead_0_entries:
  "traverse exactNumerics flatPrimitives
     (coveringEnv (overheadTransform 0 22) () None overheadCamera mapCenter plainOptions)
     (mercatorDetails flatPrimitives (overheadTransform 0 22) plainOptions)
     (initialStack (overheadTransform 0 22)) [] =
   Some (Inr [\<lparr>tileID = \<lparr>overscaledZ = Fin 0, wrap = 0, canonical_z = 0, canonical_x = 0,
                            canonical_y = 0\<rparr>,
               distanceSq = 0, tileDistanceToCamera = 0\<rparr>])"
  by (simp add: run_simps)

text \<open>
  Under the padded transform with rounding, and the frustum that only meets the boxes at
  the origin: every node asks for zoom 2, and the tile of zoom 2 at the origin is returned.
\<close>

lemma targets_padded:
  "targetsAreNumbers exactNumerics cornerPrimitives
     (coveringEnv paddedTransform () None overheadCamera mapCenter
        (plainOptions\<lparr>roundZoom := True\<rparr>))
     (mercatorDetails cornerPrimitives paddedTransform (plainOptions\<lparr>roundZoom := True\<rparr>))
     (initialStack paddedTransform)"
  by (simp add: targetsAreNumbers_def run_simps cos_60)

lemma run_padded:
  "coveringTiles exactNumerics cornerPrimitives paddedTransform () None overheadCamera mapCenter
     (plainOptions\<lparr>roundZoom := True\<rparr>)
     (mercatorDetails cornerPrimitives paddedTransform (plainOptions\<lparr>roundZoom := True\<rparr>)) =
   Some (Inr [\<lparr>overscaledZ = Fin 2, wrap = 0, canonical_z = 2, canonical_x = 0,
                canonical_y = 0\<rparr>])"
  by (simp add: run_simps cos_60)

lemma run_root:
  "coveringTiles exactNumerics rootPrimitives paddedTransform () None mapCenter mapCenter
     (plainOptions\<lparr>maxzoom := Some 0\<rparr>)
     (mercatorDetails rootPrimitives paddedTransform (plainOptions\<lparr>maxzoom := Some 0\<rparr>)) =
   Some (Inr [\<lparr>overscaledZ = Fin 1, wrap = 0, canonical_z = 1, canonical_x = 0, canonical_y = 0\<rparr>,
              \<lparr>overscaledZ = Fin 1, wrap = 0, canonical_z = 1, canonical_x = 0, canonical_y = 1\<rparr>,
              \<lparr>overscaledZ = Fin 1, wrap = 0, canonical_z = 1, canonical_x = 1, canonical_y = 0\<rparr>,
              \<lparr>overscaledZ = Fin 1, wrap = 0, canonical_z = 1, canonical_x = 1, canonical_y = 1\<rparr>])"
  by (simp add: run_simps cos_60)

text \<open>
  A camera at the view centre itself, at distance 0 from every tile, with variable zoom:
  the pitch of every tile is the arc tangent of 0/0, every node asks for NaN and is
  subdivided, and the loop does not return.
\<close>

lemma visit_level:
  "visit exactNumerics flatPrimitives
     (coveringEnv paddedTransform () None mapCenter mapCenter plainOptions)
     (mercatorDetails flatPrimitives paddedTransform plainOptions) it =
   Inr (Subdivide (children it (se_wrap it) (se_fullyVisible it)))"
  by (cases "se_fullyVisible it") (simp_all add: run_simps)

lemma traverse_level:
  assumes "traverse exactNumerics flatPrimitives
     (coveringEnv paddedTransform () None mapCenter mapCenter plainOptions)
     (mercatorDetails flatPrimitives paddedTransform plainOptions) stack result = Some out"
  shows "stack = []"
  using assms
  by (induction rule: traverse_induct) (simp_all add: visit_level children_def)

lemma run_level:
  "coveringTiles exactNumerics flatPrimitives paddedTransform () None mapCenter mapCenter
     plainOptions (mercatorDetails flatPrimitives paddedTransform plainOptions) = None"
proof (cases "traverse exactNumerics flatPrimitives
     (coveringEnv paddedTransform () None mapCenter mapCenter plainOptions)
     (mercatorDetails flatPrimitives paddedTransform plainOptions)
     (initialStack paddedTransform) []")
  case None
  then show ?thesis by (simp add: coveringTiles_def)
next
  case (Some out)
  from traverse_level [OF this] show ?thesis
    by (simp add: initialStack_def)
qed


section \<open>The planar routine against the engine\<close>

text \<open>
  C1. The claim: for every transform, frustum, plane, camera, centre and options,
  \<^verbatim>\<open>mercatorCoveringTiles\<close> returns the same ordered list of tile identifiers as
  \<^verbatim>\<open>coveringTiles\<close> with the planar details provider. On the code it does not: for the
  camera above the centre of the map, desired zoom 1 and no plane, the engine returns the
  four tiles of zoom 1, and the planar routine raises \<^verbatim>\<open>TypeError\<close>, since it hands the
  plane to \<^verbatim>\<open>isTileVisible\<close> where the box is expected.
\<close>

theorem mercatorCoveringTiles_differs:
  "mercatorCoveringTiles exactNumerics flatPrimitives (overheadTransform 1 22) () None overheadCamera mapCenter
     plainOptions = Some (Inl TypeError) \<and>
   coveringTiles exactNumerics flatPrimitives (overheadTransform 1 22) () None overheadCamera mapCenter
     plainOptions (mercatorDetails flatPrimitives (overheadTransform 1 22) plainOptions) =
   Some (Inr [\<lparr>overscaledZ = Fin 1, wrap = 0, canonical_z = 1, canonical_x = 1, canonical_y = 1\<rparr>,
              \<lparr>overscaledZ = Fin 1, wrap = 0, canonical_z = 1, canonical_x = 0, canonical_y = 1\<rparr>,
              \<lparr>overscaledZ = Fin 1, wrap = 0, canonical_z = 1, canonical_x = 1, canonical_y = 0\<rparr>,
              \<lparr>overscaledZ = Fin 1, wrap = 0, canonical_z = 1, canonical_x = 0, canonical_y = 0\<rparr>])"
  by (simp add: run_simps mercator_defs)

section \<open>Raised errors\<close>

text \<open>
  C2. The claim: for every input, also with a terrain provider configured, a covering-tiles
  invocation returns a list and raises nothing; in particular every evaluation of
  \<^verbatim>\<open>getTileAABB\<close> succeeds. On the code it does not: with a terrain provider the function
  \<^verbatim>\<open>getTileAABB\<close> of the planar file raises \<^verbatim>\<open>ReferenceError\<close> for the root tile, and so
  do the planar routine and the engine when its details use this function, while the
  method of the provider class builds the box.
\<close>

theorem getTileAABB_terrain_raises:
  "getTileAABB \<lparr>t_x = 0, t_y = 0, t_z = 0\<rparr> 0 0 (plainOptions\<lparr>terrain := Some flatTerrain\<rparr>) =
     Inl ReferenceError \<and>
   mercatorCoveringTiles exactNumerics flatPrimitives (overheadTransform 1 22) () None overheadCamera mapCenter
     (plainOptions\<lparr>terrain := Some flatTerrain\<rparr>) = Some (Inl ReferenceError) \<and>
   coveringTiles exactNumerics flatPrimitives (overheadTransform 1 22) () None overheadCamera mapCenter
     (plainOptions\<lparr>terrain := Some flatTerrain\<rparr>)
     ((mercatorDetails flatPrimitives (overheadTransform 1 22)
         (plainOptions\<lparr>terrain := Some flatTerrain\<rparr>))\<lparr>d_getTileAABB := getTileAABB\<rparr>) =
     Some (Inl ReferenceError) \<and>
   provider_getTileAABB \<lparr>t_x = 0, t_y = 0, t_z = 0\<rparr> 0 0
     (plainOptions\<lparr>terrain := Some flatTerrain\<rparr>) = unitBox"
  by (simp add: run_simps mercator_defs)

section \<open>Zoom bounds of the returned tiles\<close>

text \<open>
  C3, as amended. Every returned tile identifier has a canonical zoom of at least the
  minimum zoom. When the effective maximum zoom (the option \<^verbatim>\<open>maxzoom\<close> when given, the
  maximum zoom of the transform otherwise) is a non-negative whole number and no zoom
  computed for a node is NaN, the canonical zoom is also at most the effective maximum
  zoom.
\<close>

theorem canonicalZoom_bounds:
  assumes run: "coveringTiles N P tr fr pl cam cen opts D = Some (Inr ids)"
    and t: "t \<in> set ids"
  shows "minZoom (coveringEnv tr fr pl cam cen opts) \<le> real (canonical_z t) \<and>
         (maxZoom (coveringEnv tr fr pl cam cen opts) = real n \<and>
          targetsAreNumbers N P (coveringEnv tr fr pl cam cen opts) D (initialStack tr) \<longrightarrow>
            real (canonical_z t) \<le> maxZoom (coveringEnv tr fr pl cam cen opts))"
proof -
  let ?E = "coveringEnv tr fr pl cam cen opts"
  from run obtain result where
    result: "traverse N P ?E D (initialStack tr) [] = Some (Inr result)"
    and ids: "ids = sortedTileIDs result"
    by (rule coveringTiles_result)
  from t ids obtain r where r: "r \<in> set result" "t = tileID r"
    by (auto simp: set_sortedTileIDs)
  from traverse_sound [OF result r(1)] obtain seed it where
    seed: "seed \<in> set (initialStack tr)"
    and reach: "(pushes N P ?E D)\<^sup>*\<^sup>* seed it"
    and emitted: "visit N P ?E D it = Inr (Emit r)"
    by blast
  from visit_Emit [OF emitted] r(2) have zoom: "canonical_z t = se_zoom it"
    and lower: "minZoom ?E \<le> real (se_zoom it)"
    by auto
  have "real (se_zoom it) \<le> maxZoom ?E"
    if whole: "maxZoom ?E = real n" and numbers: "targetsAreNumbers N P ?E D (initialStack tr)"
  proof -
    from reach numbers seed se_zoom_initialStack [OF seed]
    have "se_zoom it \<le> depthBound ?E"
      by (rule reachable_depth)
    with whole show ?thesis
      by (simp add: depthBound_def)
  qed
  with zoom lower show ?thesis
    by simp
qed

text \<open>
  The padded transform, whose maximum zoom is 5, with variable zoom: every node asks for
  zoom 2, and the tile returned has canonical zoom 2, between the minimum zoom 0 and 5.
\<close>

theorem canonicalZoom_bounds_witness:
  "coveringTiles exactNumerics cornerPrimitives paddedTransform () None overheadCamera mapCenter
     (plainOptions\<lparr>roundZoom := True\<rparr>)
     (mercatorDetails cornerPrimitives paddedTransform (plainOptions\<lparr>roundZoom := True\<rparr>)) =
   Some (Inr [\<lparr>overscaledZ = Fin 2, wrap = 0, canonical_z = 2, canonical_x = 0,
                canonical_y = 0\<rparr>]) \<and>
   maxZoom (coveringEnv paddedTransform () None overheadCamera mapCenter
              (plainOptions\<lparr>roundZoom := True\<rparr>)) = real 5 \<and>
   targetsAreNumbers exactNumerics cornerPrimitives
     (coveringEnv paddedTransform () None overheadCamera mapCenter
        (plainOptions\<lparr>roundZoom := True\<rparr>))
     (mercatorDetails cornerPrimitives paddedTransform (plainOptions\<lparr>roundZoom := True\<rparr>))
     (initialStack paddedTransform) \<and>
   minZoom (coveringEnv paddedTransform () None overheadCamera mapCenter
              (plainOptions\<lparr>roundZoom := True\<rparr>))
     \<le> real (canonical_z \<lparr>overscaledZ = Fin 2, wrap = 0, canonical_z = 2, canonical_x = 0,
                           canonical_y = 0\<rparr>) \<and>
   real (canonical_z \<lparr>overscaledZ = Fin 2, wrap = 0, canonical_z = 2, canonical_x = 0,
                      canonical_y = 0\<rparr>)
     \<le> maxZoom (coveringEnv paddedTransform () None overheadCamera mapCenter
                  (plainOptions\<lparr>roundZoom := True\<rparr>))"
proof -
  let ?opts = "plainOptions\<lparr>roundZoom := True\<rparr>"
  let ?E = "coveringEnv paddedTransform () None overheadCamera mapCenter ?opts"
  let ?t = "\<lparr>overscaledZ = Fin 2, wrap = 0, canonical_z = 2, canonical_x = 0,
             canonical_y = 0\<rparr>"
  have m: "maxZoom ?E = real 5"
    by (simp add: coveringEnv_def example_defs Let_def)
  have t: "?t \<in> set [?t]"
    by simp
  from canonicalZoom_bounds [OF run_padded t, of 5] run_padded m targets_padded
  show ?thesis
    by blast
qed

text \<open>
  C3 as stated fails in its upper bound. With the option \<^verbatim>\<open>maxzoom\<close> 0, variable zoom and
  a camera at the height of the view centre, at distance 0 from the root tile and 1 from
  the others, the root asks for NaN, which no zoom reaches, and is subdivided; its
  children ask for 0 and are returned with canonical zoom 1. And with the maximum zoom
  1/2 and the desired zoom 1 the root is subdivided, since 0 is less than 1/2, and its
  child is returned with canonical zoom 1.
\<close>

theorem canonicalZoom_bounds_counterexample:
  "coveringTiles exactNumerics rootPrimitives paddedTransform () None mapCenter mapCenter
     (plainOptions\<lparr>maxzoom := Some 0\<rparr>)
     (mercatorDetails rootPrimitives paddedTransform (plainOptions\<lparr>maxzoom := Some 0\<rparr>)) =
   Some (Inr [\<lparr>overscaledZ = Fin 1, wrap = 0, canonical_z = 1, canonical_x = 0, canonical_y = 0\<rparr>,
              \<lparr>overscaledZ = Fin 1, wrap = 0, canonical_z = 1, canonical_x = 0, canonical_y = 1\<rparr>,
              \<lparr>overscaledZ = Fin 1, wrap = 0, canonical_z = 1, canonical_x = 1, canonical_y = 0\<rparr>,
              \<lparr>overscaledZ = Fin 1, wrap = 0, canonical_z = 1, canonical_x = 1, canonical_y = 1\<rparr>]) \<and>
   maxZoom (coveringEnv paddedTransform () None mapCenter mapCenter
              (plainOptions\<lparr>maxzoom := Some 0\<rparr>)) = 0 \<and>
   \<not> real (canonical_z \<lparr>overscaledZ = Fin 1, wrap = 0, canonical_z = 1, canonical_x = 0,
                        canonical_y = 0\<rparr>)
       \<le> maxZoom (coveringEnv paddedTransform () None mapCenter mapCenter
                    (plainOptions\<lparr>maxzoom := Some 0\<rparr>)) \<and>
   coveringTiles exactNumerics cornerPrimitives (overheadTransform 1 (1 / 2)) () None
     overheadCamera mapCenter plainOptions
     (mercatorDetails cornerPrimitives (overheadTransform 1 (1 / 2)) plainOptions) =
   Some (Inr [\<lparr>overscaledZ = Fin 1, wrap = 0, canonical_z = 1, canonical_x = 0, canonical_y = 0\<rparr>]) \<and>
   maxZoom (coveringEnv (overheadTransform 1 (1 / 2)) () None overheadCamera mapCenter
     plainOptions) = 1 / 2 \<and>
   \<not> real (canonical_z \<lparr>overscaledZ = Fin 1, wrap = 0, canonical_z = 1, canonical_x = 0,
                        canonical_y = 0\<rparr>)
       \<le> maxZoom (coveringEnv (overheadTransform 1 (1 / 2)) () None overheadCamera mapCenter
             plainOptions)"
  by (simp add: run_simps cos_60)

section \<open>The visibility classifier\<close>

text \<open>
  C4. Without a clipping plane the classifier answers what the box-against-frustum test
  answers. With a plane it answers \<^const>\<open>Full\<close> exactly when both tests do,
  \<^const>\<open>None_IR\<close> exactly when one of them does, and \<^const>\<open>Partial\<close> in every other
  combination.
\<close>

theorem isTileVisible_classifier:
  "isTileVisible P fr (Box b) (planeValue None) = Inr (intersectsFrustum P b fr) \<and>
   (\<exists>r. isTileVisible P fr (Box b) (planeValue (Some p)) = Inr r \<and>
      (r = Full \<longleftrightarrow>
         intersectsFrustum P b fr = Full \<and> intersectsPlane P b (Vec4 p) = Full) \<and>
      (r = None_IR \<longleftrightarrow>
         intersectsFrustum P b fr = None_IR \<or> intersectsPlane P b (Vec4 p) = None_IR) \<and>
      (r = Partial \<longleftrightarrow>
         \<not> (intersectsFrustum P b fr = Full \<and> intersectsPlane P b (Vec4 p) = Full) \<and>
         \<not> (intersectsFrustum P b fr = None_IR \<or> intersectsPlane P b (Vec4 p) = None_IR)))"
  by (simp add: isTileVisible_def planeValue_def Let_def)

theorem isTileVisible_classifier_witness:
  "isTileVisible fullPrimitives () (Box unitBox) (planeValue None) = Inr Full \<and>
   isTileVisible fullPrimitives () (Box unitBox) (planeValue (Some (0, 0, 1, 0))) = Inr Partial"
  using isTileVisible_classifier [of fullPrimitives "()" unitBox "(0, 0, 1, 0)"]
  by (auto simp: fullPrimitives_def)

section \<open>Order of the returned list\<close>

text \<open>
  The returned list is the list of the tile identifiers of the accumulated entries in
  ascending order of their \<^verbatim>\<open>distanceSq\<close>, and sorting the ordered entries by
  \<^verbatim>\<open>distanceSq\<close> once more changes nothing.
\<close>

lemma sortedTileIDs_sorted:
  assumes "coveringTiles N P tr fr pl cam cen opts D = Some (Inr ids)"
  shows "\<exists>result ordered.
           traverse N P (coveringEnv tr fr pl cam cen opts) D (initialStack tr) []
             = Some (Inr result) \<and>
           ordered = sort_key distanceSq result \<and>
           ids = map tileID ordered \<and>
           sorted (map distanceSq ordered) \<and>
           sort_key distanceSq ordered = ordered"
  using assms
  by (auto simp: coveringTiles_def sortedTileIDs_def sort_key_id_if_sorted
           split: option.splits sum.splits)

text \<open>
  The view centred on (7/8, 1/8) with nominal zoom 1 and variable zoom: the tiles that hold
  the point below the camera ask for zoom 2 and the others for zoom 1, so three tiles of
  zoom 1 and four of zoom 2 are accumulated. In ascending order of \<^verbatim>\<open>distanceSq\<close>:
\<close>

lemma traverse_cornerView:
  "\<exists>result.
     traverse exactNumerics nearPrimitives
       (coveringEnv cornerViewTransform () None cornerViewCamera cornerViewCenter
          (plainOptions\<lparr>roundZoom := True\<rparr>))
       (mercatorDetails nearPrimitives cornerViewTransform (plainOptions\<lparr>roundZoom := True\<rparr>))
       (initialStack cornerViewTransform) [] = Some (Inr result) \<and>
     map tileID (sort_key distanceSq result) =
       [\<lparr>overscaledZ = Fin 2, wrap = 0, canonical_z = 2, canonical_x = 2, canonical_y = 0\<rparr>,
        \<lparr>overscaledZ = Fin 1, wrap = 0, canonical_z = 1, canonical_x = 1, canonical_y = 1\<rparr>,
        \<lparr>overscaledZ = Fin 1, wrap = 0, canonical_z = 1, canonical_x = 0, canonical_y = 0\<rparr>,
        \<lparr>overscaledZ = Fin 2, wrap = 0, canonical_z = 2, canonical_x = 2, canonical_y = 1\<rparr>,
        \<lparr>overscaledZ = Fin 1, wrap = 0, canonical_z = 1, canonical_x = 0, canonical_y = 1\<rparr>,
        \<lparr>overscaledZ = Fin 2, wrap = 0, canonical_z = 2, canonical_x = 3, canonical_y = 0\<rparr>,
        \<lparr>overscaledZ = Fin 2, wrap = 0, canonical_z = 2, canonical_x = 3, canonical_y = 1\<rparr>] \<and>
     map distanceSq (sort_key distanceSq result) =
       [5 / 8, 13 / 8, 13 / 8, 17 / 8, 25 / 8, 25 / 8, 37 / 8]"
  by (simp add: run_simps cos_60 cos_arctan)

text \<open>
  C5. The claim: the returned list is in ascending order of \<^verbatim>\<open>distanceSq\<close>, the squared
  planar distance from the view centre. On the code the list is not in ascending order of
  that distance when tiles of several zooms are returned: \<^verbatim>\<open>distanceSq\<close> subtracts the
  coordinates of a tile, which count tiles of the tile's own zoom, from the view centre in
  the coordinates of the nominal zoom. For the view centred on (7/8, 1/8) the tile (3, 0)
  of zoom 2 holds the view centre: its centre is at squared distance 0 from it and its
  corner at 1/8, in the coordinates of the nominal zoom. It is returned sixth, with the
  key 25/8, after the tile (1, 1) of zoom 1, with the key 13/8, whose centre is at squared
  distance 13/8 and whose corner at 9/8.
\<close>

theorem order_of_mixed_zooms:
  "coveringTiles exactNumerics nearPrimitives cornerViewTransform () None cornerViewCamera
     cornerViewCenter (plainOptions\<lparr>roundZoom := True\<rparr>)
     (mercatorDetails nearPrimitives cornerViewTransform (plainOptions\<lparr>roundZoom := True\<rparr>)) =
   Some (Inr [\<lparr>overscaledZ = Fin 2, wrap = 0, canonical_z = 2, canonical_x = 2, canonical_y = 0\<rparr>,
              \<lparr>overscaledZ = Fin 1, wrap = 0, canonical_z = 1, canonical_x = 1, canonical_y = 1\<rparr>,
              \<lparr>overscaledZ = Fin 1, wrap = 0, canonical_z = 1, canonical_x = 0, canonical_y = 0\<rparr>,
              \<lparr>overscaledZ = Fin 2, wrap = 0, canonical_z = 2, canonical_x = 2, canonical_y = 1\<rparr>,
              \<lparr>overscaledZ = Fin 1, wrap = 0, canonical_z = 1, canonical_x = 0, canonical_y = 1\<rparr>,
              \<lparr>overscaledZ = Fin 2, wrap = 0, canonical_z = 2, canonical_x = 3, canonical_y = 0\<rparr>,
              \<lparr>overscaledZ = Fin 2, wrap = 0, canonical_z = 2, canonical_x = 3, canonical_y = 1\<rparr>]) \<and>
   (\<exists>result.
      traverse exactNumerics nearPrimitives
        (coveringEnv cornerViewTransform () None cornerViewCamera cornerViewCenter
           (plainOptions\<lparr>roundZoom := True\<rparr>))
        (mercatorDetails nearPrimitives cornerViewTransform (plainOptions\<lparr>roundZoom := True\<rparr>))
        (initialStack cornerViewTransform) [] = Some (Inr result) \<and>
      map distanceSq (sort_key distanceSq result) =
        [5 / 8, 13 / 8, 13 / 8, 17 / 8, 25 / 8, 25 / 8, 37 / 8]) \<and>
   nominalZ (coveringEnv cornerViewTransform () None cornerViewCamera cornerViewCenter
               (plainOptions\<lparr>roundZoom := True\<rparr>)) = 1 \<and>
   centre_distanceSq
     (coveringEnv cornerViewTransform () None cornerViewCamera cornerViewCenter
        (plainOptions\<lparr>roundZoom := True\<rparr>))
     \<lparr>overscaledZ = Fin 2, wrap = 0, canonical_z = 2, canonical_x = 3, canonical_y = 0\<rparr> = 0 \<and>
   centre_distanceSq
     (coveringEnv cornerViewTransform () None cornerViewCamera cornerViewCenter
        (plainOptions\<lparr>roundZoom := True\<rparr>))
     \<lparr>overscaledZ = Fin 1, wrap = 0, canonical_z = 1, canonical_x = 1, canonical_y = 1\<rparr>
     = 13 / 8 \<and>
   spec_distanceSq
     (coveringEnv cornerViewTransform () None cornerViewCamera cornerViewCenter
        (plainOptions\<lparr>roundZoom := True\<rparr>))
     \<lparr>overscaledZ = Fin 2, wrap = 0, canonical_z = 2, canonical_x = 3, canonical_y = 0\<rparr>
     = 1 / 8 \<and>
   spec_distanceSq
     (coveringEnv cornerViewTransform () None cornerViewCamera cornerViewCenter
        (plainOptions\<lparr>roundZoom := True\<rparr>))
     \<lparr>overscaledZ = Fin 1, wrap = 0, canonical_z = 1, canonical_x = 1, canonical_y = 1\<rparr>
     = 9 / 8"
proof -
  let ?E = "coveringEnv cornerViewTransform () None cornerViewCamera cornerViewCenter
              (plainOptions\<lparr>roundZoom := True\<rparr>)"
  have n: "nominalZ ?E = 1"
    by (simp add: coveringEnv_def example_defs Let_def)
  have half: "2 powr (- 1) = (1 / 2 :: real)"
    by (simp add: powr_minus)
  have d: "centre_distanceSq ?E
             \<lparr>overscaledZ = Fin 2, wrap = 0, canonical_z = 2, canonical_x = 3, canonical_y = 0\<rparr>
             = 0"
    "centre_distanceSq ?E
       \<lparr>overscaledZ = Fin 1, wrap = 0, canonical_z = 1, canonical_x = 1, canonical_y = 1\<rparr>
       = 13 / 8"
    "spec_distanceSq ?E
       \<lparr>overscaledZ = Fin 2, wrap = 0, canonical_z = 2, canonical_x = 3, canonical_y = 0\<rparr>
       = 1 / 8"
    "spec_distanceSq ?E
       \<lparr>overscaledZ = Fin 1, wrap = 0, canonical_z = 1, canonical_x = 1, canonical_y = 1\<rparr>
       = 9 / 8"
    by (simp_all add: centre_distanceSq_def spec_distanceSq_def coveringEnv_def example_defs
        sqrLen_def half Let_def)
  from traverse_cornerView
  have "coveringTiles exactNumerics nearPrimitives cornerViewTransform () None
      cornerViewCamera cornerViewCenter (plainOptions\<lparr>roundZoom := True\<rparr>)
      (mercatorDetails nearPrimitives cornerViewTransform (plainOptions\<lparr>roundZoom := True\<rparr>)) =
    Some (Inr [\<lparr>overscaledZ = Fin 2, wrap = 0, canonical_z = 2, canonical_x = 2, canonical_y = 0\<rparr>,
        \<lparr>overscaledZ = Fin 1, wrap = 0, canonical_z = 1, canonical_x = 1, canonical_y = 1\<rparr>,
        \<lparr>overscaledZ = Fin 1, wrap = 0, canonical_z = 1, canonical_x = 0, canonical_y = 0\<rparr>,
        \<lparr>overscaledZ = Fin 2, wrap = 0, canonical_z = 2, canonical_x = 2, canonical_y = 1\<rparr>,
        \<lparr>overscaledZ = Fin 1, wrap = 0, canonical_z = 1, canonical_x = 0, canonical_y = 1\<rparr>,
        \<lparr>overscaledZ = Fin 2, wrap = 0, canonical_z = 2, canonical_x = 3, canonical_y = 0\<rparr>,
        \<lparr>overscaledZ = Fin 2, wrap = 0, canonical_z = 2, canonical_x = 3, canonical_y = 1\<rparr>])"
    by (elim exE conjE) (simp add: coveringTiles_def sortedTileIDs_def)
  moreover from traverse_cornerView
  have "\<exists>result.
      traverse exactNumerics nearPrimitives ?E
        (mercatorDetails nearPrimitives cornerViewTransform (plainOptions\<lparr>roundZoom := True\<rparr>))
        (initialStack cornerViewTransform) [] = Some (Inr result) \<and>
      map distanceSq (sort_key distanceSq result) =
        [5 / 8, 13 / 8, 13 / 8, 17 / 8, 25 / 8, 25 / 8, 37 / 8]"
    by (elim exE conjE) (intro exI conjI, assumption+)
  ultimately show ?thesis
    using n d by (intro conjI)
qed

section \<open>The overscaled zoom of a returned tile\<close>

text \<open>
  C6, as amended. Every returned tile identifier comes from the entry that a node whose
  box was built emits; its overscaled zoom is the zoom of the node, except when that zoom
  equals the effective maximum zoom and \<^verbatim>\<open>reparseOverscaled\<close> is set: then it is the zoom
  the node asks for, raised to at least 0 and not capped at the effective maximum zoom.
\<close>

theorem overscaledZoom_of_result:
  assumes run: "coveringTiles N P tr fr pl cam cen opts D = Some (Inr ids)"
    and t: "t \<in> set ids"
  shows "\<exists>it aabb r.
           visit N P (coveringEnv tr fr pl cam cen opts) D it = Inr (Emit r) \<and>
           t = tileID r \<and>
           nodeBox (coveringEnv tr fr pl cam cen opts) D it = Inr aabb \<and>
           canonical_z t = se_zoom it \<and>
           greaterEq (nodeDesiredZ N (coveringEnv tr fr pl cam cen opts) D it aabb) (Fin 0) \<and>
           overscaledZ t =
             (if real (se_zoom it) = maxZoom (coveringEnv tr fr pl cam cen opts) \<and>
                 reparseOverscaled opts
              then nodeDesiredZ N (coveringEnv tr fr pl cam cen opts) D it aabb
              else Fin (real (se_zoom it)))"
proof -
  let ?E = "coveringEnv tr fr pl cam cen opts"
  from run obtain result where
    result: "traverse N P ?E D (initialStack tr) [] = Some (Inr result)"
    and ids: "ids = sortedTileIDs result"
    by (rule coveringTiles_result)
  from t ids obtain r where r: "r \<in> set result" "t = tileID r"
    by (auto simp: set_sortedTileIDs)
  from traverse_emitted [OF result r(1)] obtain it where
    emitted: "visit N P ?E D it = Inr (Emit r)" ..
  from visit_Emit [OF this] obtain aabb where
    box: "nodeBox ?E D it = Inr aabb"
    and entry: "r = resultEntry ?E it (nodeWrap ?E D it) (nodeDesiredZ N ?E D it aabb)"
    and reached: "greaterEq (Fin (real (se_zoom it)))
                    (Math_min (nodeDesiredZ N ?E D it aabb) (Fin (maxZoom ?E)))"
    by blast
  from reached have "nodeDesiredZ N ?E D it aabb \<noteq> NaN"
    by (rule reached_target)
  then have "greaterEq (nodeDesiredZ N ?E D it aabb) (Fin 0)"
    by (rule tileDesiredZ_nonneg)
  with box entry have "nodeBox ?E D it = Inr aabb \<and> canonical_z t = se_zoom it \<and>
      greaterEq (nodeDesiredZ N ?E D it aabb) (Fin 0) \<and>
      overscaledZ t =
        (if real (se_zoom it) = maxZoom ?E \<and> reparseOverscaled opts
         then nodeDesiredZ N ?E D it aabb else Fin (real (se_zoom it)))"
    using r(2)
    by (simp add: overscaledZ_resultEntry centerPoint_coveringEnv)
  with emitted r(2) show ?thesis
    by blast
qed

theorem overscaledZoom_of_result_witness:
  "coveringTiles exactNumerics flatPrimitives (overheadTransform 1 22) () None overheadCamera mapCenter
     plainOptions (mercatorDetails flatPrimitives (overheadTransform 1 22) plainOptions) =
   Some (Inr [\<lparr>overscaledZ = Fin 1, wrap = 0, canonical_z = 1, canonical_x = 1, canonical_y = 1\<rparr>,
              \<lparr>overscaledZ = Fin 1, wrap = 0, canonical_z = 1, canonical_x = 0, canonical_y = 1\<rparr>,
              \<lparr>overscaledZ = Fin 1, wrap = 0, canonical_z = 1, canonical_x = 1, canonical_y = 0\<rparr>,
              \<lparr>overscaledZ = Fin 1, wrap = 0, canonical_z = 1, canonical_x = 0, canonical_y = 0\<rparr>]) \<and>
   (\<exists>it aabb.
      nodeBox (coveringEnv (overheadTransform 1 22) () None overheadCamera mapCenter plainOptions)
        (mercatorDetails flatPrimitives (overheadTransform 1 22) plainOptions) it = Inr aabb \<and>
      canonical_z \<lparr>overscaledZ = Fin 1, wrap = 0, canonical_z = 1, canonical_x = 1,
                   canonical_y = 0\<rparr> = se_zoom it \<and>
      overscaledZ \<lparr>overscaledZ = Fin 1, wrap = 0, canonical_z = 1, canonical_x = 1,
                   canonical_y = 0\<rparr> = Fin (real (se_zoom it)))"
proof -
  let ?t = "\<lparr>overscaledZ = Fin 1, wrap = 0, canonical_z = 1, canonical_x = 1, canonical_y = 0\<rparr>"
  let ?E = "coveringEnv (overheadTransform 1 22) () None overheadCamera mapCenter plainOptions"
  have t: "?t \<in> set [\<lparr>overscaledZ = Fin 1, wrap = 0, canonical_z = 1, canonical_x = 1, canonical_y = 1\<rparr>,
              \<lparr>overscaledZ = Fin 1, wrap = 0, canonical_z = 1, canonical_x = 0, canonical_y = 1\<rparr>,
              \<lparr>overscaledZ = Fin 1, wrap = 0, canonical_z = 1, canonical_x = 1, canonical_y = 0\<rparr>,
              \<lparr>overscaledZ = Fin 1, wrap = 0, canonical_z = 1, canonical_x = 0, canonical_y = 0\<rparr>]"
    by simp
  have m: "maxZoom ?E = 22" "\<not> reparseOverscaled plainOptions"
    by (simp_all add: coveringEnv_def example_defs Let_def)
  from overscaledZoom_of_result [OF run_overhead_1 t] obtain it aabb where
    "nodeBox ?E (mercatorDetails flatPrimitives (overheadTransform 1 22) plainOptions) it
       = Inr aabb"
    "canonical_z ?t = se_zoom it"
    "overscaledZ ?t = Fin (real (se_zoom it))"
    using m by auto
  with run_overhead_1 show ?thesis
    by blast
qed

text \<open>
  C6 as stated fails: with desired zoom 3, maximum zoom 1 and \<^verbatim>\<open>reparseOverscaled\<close> set,
  the tile of zoom 1 is returned with overscaled zoom 3, above the effective maximum zoom.
\<close>

theorem overscaledZoom_of_result_counterexample:
  "coveringTiles exactNumerics cornerPrimitives (overheadTransform 3 1) () None overheadCamera mapCenter
     (plainOptions\<lparr>reparseOverscaled := True\<rparr>)
     (mercatorDetails cornerPrimitives (overheadTransform 3 1)
        (plainOptions\<lparr>reparseOverscaled := True\<rparr>)) =
   Some (Inr [\<lparr>overscaledZ = Fin 3, wrap = 0, canonical_z = 1, canonical_x = 0, canonical_y = 0\<rparr>]) \<and>
   maxZoom (coveringEnv (overheadTransform 3 1) () None overheadCamera mapCenter
     (plainOptions\<lparr>reparseOverscaled := True\<rparr>)) = 1 \<and>
   \<not> greaterEq
       (Fin (maxZoom (coveringEnv (overheadTransform 3 1) () None overheadCamera mapCenter
                        (plainOptions\<lparr>reparseOverscaled := True\<rparr>))))
       (overscaledZ \<lparr>overscaledZ = Fin 3, wrap = 0, canonical_z = 1, canonical_x = 0,
                     canonical_y = 0\<rparr>)"
  by (simp add: run_simps)

section \<open>A minimum zoom above the nominal zoom\<close>

text \<open>
  C7, as amended. Without variable zoom, when the nominal zoom is a non-negative whole
  number and the minimum zoom is greater, the returned list is empty.
\<close>

theorem minZoom_above_nominal:
  assumes run: "coveringTiles N P tr fr pl cam cen opts D = Some (Inr ids)"
    and fixed: "\<not> allowVariableZoom D"
    and whole: "nominalZ (coveringEnv tr fr pl cam cen opts) = real n"
    and above: "nominalZ (coveringEnv tr fr pl cam cen opts)
                  < minZoom (coveringEnv tr fr pl cam cen opts)"
  shows "ids = []"
proof -
  let ?E = "coveringEnv tr fr pl cam cen opts"
  from run obtain result where
    result: "traverse N P ?E D (initialStack tr) [] = Some (Inr result)"
    and ids: "ids = sortedTileIDs result"
    by (rule coveringTiles_result)
  have "\<forall>r \<in> set result. False"
  proof (rule traverse_invariant [where I = "\<lambda>it. se_zoom it \<le> n"
        and stack = "initialStack tr" and result = "[]", OF _ _ result])
    fix it cs c
    assume "se_zoom it \<le> n" and v: "visit N P ?E D it = Inr (Subdivide cs)" and c: "c \<in> set cs"
    from visit_Subdivide [OF v] fixed whole obtain w fv where
      "cs = children it w fv" "real (se_zoom it) < real n"
      by (auto simp: tileDesiredZ_fixed nominalZ_coveringEnv not_le)
    with c show "se_zoom c \<le> n"
      by (auto simp: se_zoom_children)
  next
    fix it r
    assume "se_zoom it \<le> n" "visit N P ?E D it = Inr (Emit r)"
    with whole above show False
      by (auto dest!: visit_Emit)
  next
    show "\<forall>it \<in> set (initialStack tr). se_zoom it \<le> n"
      by (simp add: se_zoom_initialStack)
  qed simp
  then have "result = []"
    by (cases result) auto
  with ids show ?thesis
    by (simp add: sortedTileIDs_def)
qed

text \<open>Minimum zoom 3 and nominal zoom 1, without variable zoom: nothing is returned.\<close>

theorem minZoom_above_nominal_witness:
  "coveringTiles exactNumerics flatPrimitives (overheadTransform 1 22) () None overheadCamera mapCenter
     (plainOptions\<lparr>minzoom := Some 3\<rparr>)
     (mercatorDetails flatPrimitives (overheadTransform 1 22) (plainOptions\<lparr>minzoom := Some 3\<rparr>)) =
   Some (Inr []) \<and>
   \<not> allowVariableZoom
       (mercatorDetails flatPrimitives (overheadTransform 1 22)
          (plainOptions\<lparr>minzoom := Some 3\<rparr>)) \<and>
   nominalZ (coveringEnv (overheadTransform 1 22) () None overheadCamera mapCenter
     (plainOptions\<lparr>minzoom := Some 3\<rparr>)) = real 1 \<and>
   nominalZ (coveringEnv (overheadTransform 1 22) () None overheadCamera mapCenter
     (plainOptions\<lparr>minzoom := Some 3\<rparr>)) <
   minZoom (coveringEnv (overheadTransform 1 22) () None overheadCamera mapCenter
     (plainOptions\<lparr>minzoom := Some 3\<rparr>))"
proof -
  let ?opts = "plainOptions\<lparr>minzoom := Some 3\<rparr>"
  let ?tr = "overheadTransform 1 22"
  let ?D = "mercatorDetails flatPrimitives ?tr ?opts"
  obtain ids where run:
    "coveringTiles exactNumerics flatPrimitives ?tr () None overheadCamera mapCenter ?opts ?D = Some (Inr ids)"
    by (simp add: run_simps)
  have fixed: "\<not> allowVariableZoom ?D"
    by (simp add: model_defs example_defs)
  have whole: "nominalZ (coveringEnv ?tr () None overheadCamera mapCenter ?opts) = real 1"
    by (simp add: coveringEnv_def example_defs Let_def)
  have above: "nominalZ (coveringEnv ?tr () None overheadCamera mapCenter ?opts)
       < minZoom (coveringEnv ?tr () None overheadCamera mapCenter ?opts)"
    by (simp add: coveringEnv_def example_defs Let_def)
  from minZoom_above_nominal [OF run fixed whole above] run fixed whole above show ?thesis
    by simp
qed

text \<open>
  C7 as stated fails with variable zoom: under the padded transform (zoom 1, field of
  view 120 degrees, rounding) the tile below the camera asks for zoom 2, so with nominal
  zoom 1 and minimum zoom 2 a tile of zoom 2 is returned.
\<close>

theorem minZoom_above_nominal_counterexample:
  "coveringTiles exactNumerics cornerPrimitives paddedTransform () None overheadCamera mapCenter
     (plainOptions\<lparr>roundZoom := True, minzoom := Some 2\<rparr>)
     (mercatorDetails cornerPrimitives paddedTransform
        (plainOptions\<lparr>roundZoom := True, minzoom := Some 2\<rparr>)) =
   Some (Inr [\<lparr>overscaledZ = Fin 2, wrap = 0, canonical_z = 2, canonical_x = 0, canonical_y = 0\<rparr>]) \<and>
   nominalZ (coveringEnv paddedTransform () None overheadCamera mapCenter
     (plainOptions\<lparr>roundZoom := True, minzoom := Some 2\<rparr>)) = 1 \<and>
   minZoom (coveringEnv paddedTransform () None overheadCamera mapCenter
     (plainOptions\<lparr>roundZoom := True, minzoom := Some 2\<rparr>)) = 2"
  by (simp add: run_simps cos_60)

section \<open>The distance of an entry\<close>

text \<open>
  C8, as amended. For every accumulated entry of a node whose zoom is the nominal zoom,
  \<^verbatim>\<open>distanceSq\<close> is the squared distance, in the coordinates of the nominal zoom, between
  the centre of the tile and the centre of the view.
\<close>

theorem distanceSq_of_result:
  assumes run: "traverse N P (coveringEnv tr fr pl cam cen opts) D (initialStack tr) []
                  = Some (Inr result)"
    and r: "r \<in> set result"
    and nominal: "real (canonical_z (tileID r)) = nominalZ (coveringEnv tr fr pl cam cen opts)"
  shows "distanceSq r = centre_distanceSq (coveringEnv tr fr pl cam cen opts) (tileID r)"
proof -
  let ?E = "coveringEnv tr fr pl cam cen opts"
  from traverse_emitted [OF run r] obtain it where "visit N P ?E D it = Inr (Emit r)" ..
  from visit_Emit [OF this] obtain w t where "r = resultEntry ?E it w t"
    by blast
  with nominal show ?thesis
    by (simp add: distanceSq_resultEntry centre_distanceSq_def centerPoint_coveringEnv
        algebra_simps)
qed

text \<open>Nominal zoom 0: the root tile, whose centre is the centre of the view.\<close>

theorem distanceSq_of_result_witness:
  "traverse exactNumerics flatPrimitives
     (coveringEnv (overheadTransform 0 22) () None overheadCamera mapCenter plainOptions)
     (mercatorDetails flatPrimitives (overheadTransform 0 22) plainOptions)
     (initialStack (overheadTransform 0 22)) [] =
   Some (Inr [\<lparr>tileID = \<lparr>overscaledZ = Fin 0, wrap = 0, canonical_z = 0, canonical_x = 0,
                            canonical_y = 0\<rparr>,
               distanceSq = 0, tileDistanceToCamera = 0\<rparr>]) \<and>
   real (canonical_z \<lparr>overscaledZ = Fin 0, wrap = 0, canonical_z = 0, canonical_x = 0,
                      canonical_y = 0\<rparr>) =
     nominalZ (coveringEnv (overheadTransform 0 22) () None overheadCamera mapCenter
       plainOptions) \<and>
   centre_distanceSq
     (coveringEnv (overheadTransform 0 22) () None overheadCamera mapCenter plainOptions)
     \<lparr>overscaledZ = Fin 0, wrap = 0, canonical_z = 0, canonical_x = 0, canonical_y = 0\<rparr> = 0"
proof -
  let ?E = "coveringEnv (overheadTransform 0 22) () None overheadCamera mapCenter plainOptions"
  let ?r = "\<lparr>tileID = \<lparr>overscaledZ = Fin 0, wrap = 0, canonical_z = 0, canonical_x = 0,
                            canonical_y = 0\<rparr>,
               distanceSq = 0, tileDistanceToCamera = 0\<rparr>"
  have r: "?r \<in> set [?r]" by simp
  have n: "real (canonical_z (tileID ?r)) = nominalZ ?E"
    by (simp add: coveringEnv_def example_defs Let_def)
  from distanceSq_of_result [OF run_overhead_0_entries r n] run_overhead_0_entries n
  show ?thesis by simp
qed

text \<open>
  C8 as stated fails: for the root tile at nominal zoom 0 and the view centred on the
  map, the entry has \<^verbatim>\<open>distanceSq\<close> 0, and the distance from the corner of the tile is
  1/2.
\<close>

theorem distanceSq_of_result_counterexample:
  "traverse exactNumerics flatPrimitives
     (coveringEnv (overheadTransform 0 22) () None overheadCamera mapCenter plainOptions)
     (mercatorDetails flatPrimitives (overheadTransform 0 22) plainOptions)
     (initialStack (overheadTransform 0 22)) [] =
   Some (Inr [\<lparr>tileID = \<lparr>overscaledZ = Fin 0, wrap = 0, canonical_z = 0, canonical_x = 0,
                            canonical_y = 0\<rparr>,
               distanceSq = 0, tileDistanceToCamera = 0\<rparr>]) \<and>
   spec_distanceSq
     (coveringEnv (overheadTransform 0 22) () None overheadCamera mapCenter plainOptions)
     \<lparr>overscaledZ = Fin 0, wrap = 0, canonical_z = 0, canonical_x = 0, canonical_y = 0\<rparr> = 1 / 2 \<and>
   distanceSq \<lparr>tileID = \<lparr>overscaledZ = Fin 0, wrap = 0, canonical_z = 0, canonical_x = 0,
                          canonical_y = 0\<rparr>,
              distanceSq = 0, tileDistanceToCamera = 0\<rparr> \<noteq>
   spec_distanceSq
     (coveringEnv (overheadTransform 0 22) () None overheadCamera mapCenter plainOptions)
     \<lparr>overscaledZ = Fin 0, wrap = 0, canonical_z = 0, canonical_x = 0, canonical_y = 0\<rparr>"
  by (simp add: run_simps spec_distanceSq_def)

section \<open>Descendants of a fully visible node\<close>

text \<open>
  C9. Once the visibility step of a node has left it fully visible, every descendant of
  the node is pushed fully visible and is never culled by a visibility test; it is
  dropped only when its zoom is below the minimum zoom; its iteration still builds its
  box and computes the zoom it asks for from that box; and in every traversal that
  reaches the node and returns a list, the entry of each descendant that emits one is in
  the list.
\<close>

theorem fullyVisible_descendants:
  assumes box: "nodeBox E D a = Inr aabb"
    and full: "visibility P E a aabb = Inr (Some True)"
    and desc: "(pushes N P E D)\<^sup>+\<^sup>+ a d"
  shows "se_fullyVisible d \<and>
         visit N P E D d \<noteq> Inr Culled \<and>
         (visit N P E D d = Inr TooCoarse \<longrightarrow> real (se_zoom d) < minZoom E) \<and>
         visit N P E D d =
           (case nodeBox E D d of
              Inl err \<Rightarrow> Inl err
            | Inr box \<Rightarrow>
                Inr (emitOrSubdivide E d (nodeDesiredZ N E D d box) (nodeWrap E D d) True)) \<and>
         (\<forall>stack out r.
            (\<exists>seed \<in> set stack. (pushes N P E D)\<^sup>*\<^sup>* seed a) \<and>
            traverse N P E D stack [] = Some (Inr out) \<and>
            visit N P E D d = Inr (Emit r) \<longrightarrow> r \<in> set out)"
proof -
  from desc box full have fv: "se_fullyVisible d"
    by (rule descendants_fullyVisible)
  note v = visit_fullyVisible [OF fv, of N P E D]
  from v have "visit N P E D d \<noteq> Inr Culled"
    by (auto simp: emitOrSubdivide_not_Culled split: sum.splits)
  moreover from v have "visit N P E D d = Inr TooCoarse \<longrightarrow> real (se_zoom d) < minZoom E"
    by (auto dest: emitOrSubdivide_TooCoarse split: sum.splits)
  moreover have "r \<in> set out"
    if "\<exists>seed \<in> set stack. (pushes N P E D)\<^sup>*\<^sup>* seed a"
      and run: "traverse N P E D stack [] = Some (Inr out)"
      and leaf: "visit N P E D d = Inr (Emit r)" for stack out r
  proof -
    from that(1) obtain seed where seed: "seed \<in> set stack" "(pushes N P E D)\<^sup>*\<^sup>* seed a"
      by blast
    from desc have "(pushes N P E D)\<^sup>*\<^sup>* a d"
      by (rule tranclp_into_rtranclp)
    with seed(2) have "(pushes N P E D)\<^sup>*\<^sup>* seed d"
      by (rule rtranclp_trans)
    with seed(1) leaf
    have "r \<in> set [] \<or>
       (\<exists>it \<in> set stack. \<exists>d. (pushes N P E D)\<^sup>*\<^sup>* it d \<and> visit N P E D d = Inr (Emit r))"
      by blast
    with run show ?thesis by (rule traverse_complete)
  qed
  ultimately show ?thesis using fv v by blast
qed

text \<open>
  A frustum that contains every box: the root is classified fully visible, and its child
  is pushed fully visible and is not culled.
\<close>

theorem fullyVisible_descendants_witness:
  "nodeBox (coveringEnv (overheadTransform 1 22) () None overheadCamera mapCenter plainOptions)
     (mercatorDetails fullPrimitives (overheadTransform 1 22) plainOptions) (newRootTile 0)
     = Inr unitBox \<and>
   visibility fullPrimitives
     (coveringEnv (overheadTransform 1 22) () None overheadCamera mapCenter plainOptions)
     (newRootTile 0) unitBox = Inr (Some True) \<and>
   (pushes exactNumerics fullPrimitives
      (coveringEnv (overheadTransform 1 22) () None overheadCamera mapCenter plainOptions)
      (mercatorDetails fullPrimitives (overheadTransform 1 22) plainOptions))\<^sup>+\<^sup>+
      (newRootTile 0)
      \<lparr>se_zoom = 1, se_x = 1, se_y = 0, se_wrap = 0, se_fullyVisible = True\<rparr> \<and>
   visit exactNumerics fullPrimitives
      (coveringEnv (overheadTransform 1 22) () None overheadCamera mapCenter plainOptions)
      (mercatorDetails fullPrimitives (overheadTransform 1 22) plainOptions)
      \<lparr>se_zoom = 1, se_x = 1, se_y = 0, se_wrap = 0, se_fullyVisible = True\<rparr> \<noteq> Inr Culled \<and>
   (\<exists>out r.
      traverse exactNumerics fullPrimitives
        (coveringEnv (overheadTransform 1 22) () None overheadCamera mapCenter plainOptions)
        (mercatorDetails fullPrimitives (overheadTransform 1 22) plainOptions)
        (initialStack (overheadTransform 1 22)) [] = Some (Inr out) \<and>
      visit exactNumerics fullPrimitives
        (coveringEnv (overheadTransform 1 22) () None overheadCamera mapCenter plainOptions)
        (mercatorDetails fullPrimitives (overheadTransform 1 22) plainOptions)
        \<lparr>se_zoom = 1, se_x = 1, se_y = 0, se_wrap = 0, se_fullyVisible = True\<rparr> = Inr (Emit r) \<and>
      tileID r = \<lparr>overscaledZ = Fin 1, wrap = 0, canonical_z = 1, canonical_x = 1,
                   canonical_y = 0\<rparr> \<and>
      r \<in> set out)"
proof -
  let ?E = "coveringEnv (overheadTransform 1 22) () None overheadCamera mapCenter plainOptions"
  let ?D = "mercatorDetails fullPrimitives (overheadTransform 1 22) plainOptions"
  let ?d = "\<lparr>se_zoom = 1, se_x = 1, se_y = 0, se_wrap = 0, se_fullyVisible = True\<rparr>"
  have box: "nodeBox ?E ?D (newRootTile 0) = Inr unitBox"
    by (simp add: model_defs example_defs Let_def)
  have full: "visibility fullPrimitives ?E (newRootTile 0) unitBox = Inr (Some True)"
    by (simp add: model_defs example_defs Let_def)
  have "pushes exactNumerics fullPrimitives ?E ?D (newRootTile 0) ?d"
    by (simp add: pushes_def model_defs example_defs Let_def)
  then have desc: "(pushes exactNumerics fullPrimitives ?E ?D)\<^sup>+\<^sup>+ (newRootTile 0) ?d"
    by (rule tranclp.r_into_trancl)
  note T = fullyVisible_descendants [OF box full desc]
  obtain out where run:
    "traverse exactNumerics fullPrimitives ?E ?D (initialStack (overheadTransform 1 22)) [] = Some (Inr out)"
    by (simp add: run_simps)
  obtain r where leaf: "visit exactNumerics fullPrimitives ?E ?D ?d = Inr (Emit r)"
    and tile: "tileID r = \<lparr>overscaledZ = Fin 1, wrap = 0, canonical_z = 1, canonical_x = 1,
                          canonical_y = 0\<rparr>"
    by (simp add: model_defs example_defs Let_def)
  have seed: "\<exists>seed \<in> set (initialStack (overheadTransform 1 22)).
                (pushes exactNumerics fullPrimitives ?E ?D)\<^sup>*\<^sup>* seed (newRootTile 0)"
    by (auto simp: initialStack_def)
  from T [THEN conjunct2, THEN conjunct2, THEN conjunct2, THEN conjunct2, rule_format,
      OF conjI [OF seed conjI [OF run leaf]]]
  have "r \<in> set out" .
  with T box full desc run leaf tile show ?thesis
    by blast
qed

section \<open>Termination\<close>

text \<open>
  C10, as amended. The effective maximum zoom is a finite number, as the claim assumes.
  Every invocation of the engine in which no zoom computed for a node is NaN returns. A
  visited node is subdivided only when its zoom is less than its target zoom,
  the zoom it asks for capped at the effective maximum zoom; it then pushes four children,
  each one level deeper, and the weight of the stack goes down, as it does when a node is
  popped without a push. No visited node lies deeper than the effective maximum zoom
  rounded up to a whole number, at least 0: the effective maximum zoom itself when that
  is a non-negative whole number.
\<close>

theorem traversal_terminates:
  assumes numbers:
    "targetsAreNumbers N P (coveringEnv tr fr pl cam cen opts) D (initialStack tr)"
  shows
  "(\<exists>r. coveringTiles N P tr fr pl cam cen opts D = Some r) \<and>
   (\<forall>seed it cs. seed \<in> set (initialStack tr) \<and>
      (pushes N P (coveringEnv tr fr pl cam cen opts) D)\<^sup>*\<^sup>* seed it \<and>
      visit N P (coveringEnv tr fr pl cam cen opts) D it = Inr (Subdivide cs) \<longrightarrow>
      (\<exists>aabb z. nodeBox (coveringEnv tr fr pl cam cen opts) D it = Inr aabb \<and>
         Math_min (nodeDesiredZ N (coveringEnv tr fr pl cam cen opts) D it aabb)
           (Fin (maxZoom (coveringEnv tr fr pl cam cen opts))) = Fin z \<and>
         real (se_zoom it) < z \<and> z \<le> maxZoom (coveringEnv tr fr pl cam cen opts)) \<and>
      length cs = 4 \<and>
      (\<forall>c \<in> set cs. se_zoom c = se_zoom it + 1) \<and>
      (\<forall>rest. stackWeight (coveringEnv tr fr pl cam cen opts) (rev cs @ rest)
                < stackWeight (coveringEnv tr fr pl cam cen opts) (it # rest))) \<and>
   (\<forall>it rest. stackWeight (coveringEnv tr fr pl cam cen opts) rest
                < stackWeight (coveringEnv tr fr pl cam cen opts) (it # rest)) \<and>
   (\<forall>seed it. seed \<in> set (initialStack tr) \<and>
        (pushes N P (coveringEnv tr fr pl cam cen opts) D)\<^sup>*\<^sup>* seed it \<longrightarrow>
        se_zoom it \<le> depthBound (coveringEnv tr fr pl cam cen opts)) \<and>
   (\<forall>n. maxZoom (coveringEnv tr fr pl cam cen opts) = real n \<longrightarrow>
        depthBound (coveringEnv tr fr pl cam cen opts) = n)"
proof -
  let ?E = "coveringEnv tr fr pl cam cen opts"
  have sub: "(\<exists>aabb z. nodeBox ?E D it = Inr aabb \<and>
                 Math_min (nodeDesiredZ N ?E D it aabb) (Fin (maxZoom ?E)) = Fin z \<and>
                 real (se_zoom it) < z \<and> z \<le> maxZoom ?E) \<and>
             length cs = 4 \<and> (\<forall>c \<in> set cs. se_zoom c = se_zoom it + 1) \<and>
             (\<forall>rest. stackWeight ?E (rev cs @ rest) < stackWeight ?E (it # rest))"
    if seed: "seed \<in> set (initialStack tr)" and reach: "(pushes N P ?E D)\<^sup>*\<^sup>* seed it"
      and v: "visit N P ?E D it = Inr (Subdivide cs)" for seed it cs
  proof -
    from visit_Subdivide [OF v] obtain aabb fv where
      box: "nodeBox ?E D it = Inr aabb"
      and passed: "visibility P ?E it aabb = Inr (Some fv)"
      and cs: "cs = children it (nodeWrap ?E D it) fv"
      by blast
    from targetsAreNumbersD [OF numbers seed reach box passed]
    have "nodeDesiredZ N ?E D it aabb \<noteq> NaN" .
    from subdivided_below [OF v box this] obtain z where
      z: "Math_min (nodeDesiredZ N ?E D it aabb) (Fin (maxZoom ?E)) = Fin z"
        "real (se_zoom it) < z" "z \<le> maxZoom ?E"
      by blast
    from z(2,3) have "real (se_zoom it) < maxZoom ?E" by simp
    from stackWeight_children [OF this, of "nodeWrap ?E D it" fv]
    have "\<forall>rest. stackWeight ?E (rev cs @ rest) < stackWeight ?E (it # rest)"
      by (simp add: cs stackWeight_def)
    moreover have "length cs = 4" "\<forall>c \<in> set cs. se_zoom c = se_zoom it + 1"
      by (simp_all add: cs length_children se_zoom_children)
    ultimately show ?thesis
      using box z by blast
  qed
  have pop: "stackWeight ?E rest < stackWeight ?E (it # rest)" for it rest
    using nodeWeight_pos [of ?E it] by (simp add: stackWeight_def)
  have depth: "se_zoom it \<le> depthBound ?E"
    if "seed \<in> set (initialStack tr) \<and> (pushes N P ?E D)\<^sup>*\<^sup>* seed it" for seed it
    using that numbers by (auto intro: reachable_depth simp: se_zoom_initialStack)
  have whole: "depthBound ?E = n" if "maxZoom ?E = real n" for n
    using that by (simp add: depthBound_def)
  show ?thesis
  proof (intro conjI allI impI)
    show "\<exists>r. coveringTiles N P tr fr pl cam cen opts D = Some r"
      using numbers by (rule coveringTiles_returns)
  qed (use sub pop whole depth in blast)+
qed

text \<open>
  The padded transform, whose maximum zoom is 5, with variable zoom: every node asks for
  zoom 2; the invocation returns, the root is subdivided, since 0 is less than 2, into
  four children that weigh less than it, and a child lies at depth 1, below the bound 5.
\<close>

theorem traversal_terminates_witness:
  "targetsAreNumbers exactNumerics cornerPrimitives
     (coveringEnv paddedTransform () None overheadCamera mapCenter
        (plainOptions\<lparr>roundZoom := True\<rparr>))
     (mercatorDetails cornerPrimitives paddedTransform (plainOptions\<lparr>roundZoom := True\<rparr>))
     (initialStack paddedTransform) \<and>
   (\<exists>r. coveringTiles exactNumerics cornerPrimitives paddedTransform () None overheadCamera
          mapCenter (plainOptions\<lparr>roundZoom := True\<rparr>)
          (mercatorDetails cornerPrimitives paddedTransform (plainOptions\<lparr>roundZoom := True\<rparr>))
          = Some r) \<and>
   newRootTile 0 \<in> set (initialStack paddedTransform) \<and>
   visit exactNumerics cornerPrimitives
     (coveringEnv paddedTransform () None overheadCamera mapCenter
        (plainOptions\<lparr>roundZoom := True\<rparr>))
     (mercatorDetails cornerPrimitives paddedTransform (plainOptions\<lparr>roundZoom := True\<rparr>))
     (newRootTile 0) = Inr (Subdivide (children (newRootTile 0) 0 False)) \<and>
   (\<exists>aabb.
      nodeBox (coveringEnv paddedTransform () None overheadCamera mapCenter
                 (plainOptions\<lparr>roundZoom := True\<rparr>))
        (mercatorDetails cornerPrimitives paddedTransform (plainOptions\<lparr>roundZoom := True\<rparr>))
        (newRootTile 0) = Inr aabb \<and>
      Math_min
        (nodeDesiredZ exactNumerics
           (coveringEnv paddedTransform () None overheadCamera mapCenter
              (plainOptions\<lparr>roundZoom := True\<rparr>))
           (mercatorDetails cornerPrimitives paddedTransform
              (plainOptions\<lparr>roundZoom := True\<rparr>))
           (newRootTile 0) aabb)
        (Fin (maxZoom (coveringEnv paddedTransform () None overheadCamera mapCenter
                         (plainOptions\<lparr>roundZoom := True\<rparr>)))) = Fin 2) \<and>
   length (children (newRootTile 0) 0 False) = 4 \<and>
   stackWeight
     (coveringEnv paddedTransform () None overheadCamera mapCenter
        (plainOptions\<lparr>roundZoom := True\<rparr>))
     (rev (children (newRootTile 0) 0 False) @ [])
     < stackWeight
         (coveringEnv paddedTransform () None overheadCamera mapCenter
            (plainOptions\<lparr>roundZoom := True\<rparr>))
         (newRootTile 0 # []) \<and>
   (pushes exactNumerics cornerPrimitives
      (coveringEnv paddedTransform () None overheadCamera mapCenter
         (plainOptions\<lparr>roundZoom := True\<rparr>))
      (mercatorDetails cornerPrimitives paddedTransform (plainOptions\<lparr>roundZoom := True\<rparr>)))\<^sup>*\<^sup>*
      (newRootTile 0)
      \<lparr>se_zoom = 1, se_x = 0, se_y = 0, se_wrap = 0, se_fullyVisible = False\<rparr> \<and>
   se_zoom \<lparr>se_zoom = 1, se_x = 0, se_y = 0, se_wrap = 0, se_fullyVisible = False\<rparr>
     \<le> depthBound
          (coveringEnv paddedTransform () None overheadCamera mapCenter
             (plainOptions\<lparr>roundZoom := True\<rparr>)) \<and>
   maxZoom (coveringEnv paddedTransform () None overheadCamera mapCenter
              (plainOptions\<lparr>roundZoom := True\<rparr>)) = real 5 \<and>
   depthBound (coveringEnv paddedTransform () None overheadCamera mapCenter
                 (plainOptions\<lparr>roundZoom := True\<rparr>)) = 5"
proof -
  let ?opts = "plainOptions\<lparr>roundZoom := True\<rparr>"
  let ?E = "coveringEnv paddedTransform () None overheadCamera mapCenter ?opts"
  let ?D = "mercatorDetails cornerPrimitives paddedTransform ?opts"
  let ?c = "\<lparr>se_zoom = 1, se_x = 0, se_y = 0, se_wrap = 0, se_fullyVisible = False\<rparr>"
  note T = traversal_terminates [OF targets_padded]
  have v: "visit exactNumerics cornerPrimitives ?E ?D (newRootTile 0) =
             Inr (Subdivide (children (newRootTile 0) 0 False))"
    by (simp add: model_defs example_defs Let_def cos_60)
  have m: "maxZoom ?E = real 5"
    by (simp add: coveringEnv_def example_defs Let_def)
  have seed: "newRootTile 0 \<in> set (initialStack paddedTransform)"
    by (simp add: initialStack_def)
  have target: "\<exists>aabb. nodeBox ?E ?D (newRootTile 0) = Inr aabb \<and>
      Math_min (nodeDesiredZ exactNumerics ?E ?D (newRootTile 0) aabb) (Fin (maxZoom ?E))
        = Fin 2"
    by (simp add: model_defs example_defs Let_def cos_60)
  have "pushes exactNumerics cornerPrimitives ?E ?D (newRootTile 0) ?c"
    by (simp add: pushes_def model_defs example_defs Let_def cos_60)
  then have reach: "(pushes exactNumerics cornerPrimitives ?E ?D)\<^sup>*\<^sup>* (newRootTile 0) ?c"
    by (rule r_into_rtranclp)
  have root: "(pushes exactNumerics cornerPrimitives ?E ?D)\<^sup>*\<^sup>* (newRootTile 0) (newRootTile 0)"
    by simp
  note sub = T [THEN conjunct2, THEN conjunct1, rule_format, OF conjI [OF seed conjI [OF root v]]]
  note depth = T [THEN conjunct2, THEN conjunct2, THEN conjunct2, THEN conjunct1, rule_format,
      OF conjI [OF seed reach]]
  note whole = T [THEN conjunct2, THEN conjunct2, THEN conjunct2, THEN conjunct2, rule_format,
      OF m]
  from T [THEN conjunct1] targets_padded v target sub depth whole m seed reach show ?thesis
    by blast
qed

text \<open>
  C10 as stated fails. With a camera at the view centre itself, at distance 0 from every
  tile, and variable zoom, every node asks for NaN, which no zoom reaches: every node is
  subdivided and the invocation does not return, with the effective maximum zoom 5. And
  the depth bound fails when the maximum zoom is not a whole number: with the maximum
  zoom 1/2 the root pushes a child of zoom 1.
\<close>

theorem traversal_terminates_counterexample:
  "coveringTiles exactNumerics flatPrimitives paddedTransform () None mapCenter mapCenter
     plainOptions (mercatorDetails flatPrimitives paddedTransform plainOptions) = None \<and>
   maxZoom (coveringEnv paddedTransform () None mapCenter mapCenter plainOptions) = 5 \<and>
   newRootTile 0 \<in> set (initialStack (overheadTransform 1 (1 / 2))) \<and>
   pushes exactNumerics cornerPrimitives
     (coveringEnv (overheadTransform 1 (1 / 2)) () None overheadCamera mapCenter plainOptions)
     (mercatorDetails cornerPrimitives (overheadTransform 1 (1 / 2)) plainOptions)
     (newRootTile 0)
     \<lparr>se_zoom = 1, se_x = 0, se_y = 0, se_wrap = 0, se_fullyVisible = False\<rparr> \<and>
   maxZoom (coveringEnv (overheadTransform 1 (1 / 2)) () None overheadCamera mapCenter
     plainOptions) = 1 / 2 \<and>
   \<not> real (se_zoom \<lparr>se_zoom = 1, se_x = 0, se_y = 0, se_wrap = 0, se_fullyVisible = False\<rparr>)
       \<le> maxZoom (coveringEnv (overheadTransform 1 (1 / 2)) () None overheadCamera mapCenter
             plainOptions)"
proof -
  have "maxZoom (coveringEnv paddedTransform () None mapCenter mapCenter plainOptions) = 5"
    by (simp add: coveringEnv_def example_defs Let_def)
  moreover have
    "newRootTile 0 \<in> set (initialStack (overheadTransform 1 (1 / 2))) \<and>
     pushes exactNumerics cornerPrimitives
       (coveringEnv (overheadTransform 1 (1 / 2)) () None overheadCamera mapCenter plainOptions)
       (mercatorDetails cornerPrimitives (overheadTransform 1 (1 / 2)) plainOptions)
       (newRootTile 0)
       \<lparr>se_zoom = 1, se_x = 0, se_y = 0, se_wrap = 0, se_fullyVisible = False\<rparr> \<and>
     maxZoom (coveringEnv (overheadTransform 1 (1 / 2)) () None overheadCamera mapCenter
       plainOptions) = 1 / 2 \<and>
     \<not> real (se_zoom \<lparr>se_zoom = 1, se_x = 0, se_y = 0, se_wrap = 0, se_fullyVisible = False\<rparr>)
         \<le> maxZoom (coveringEnv (overheadTransform 1 (1 / 2)) () None overheadCamera mapCenter
               plainOptions)"
    by (simp add: pushes_def run_simps)
  ultimately show ?thesis
    using run_level by blast
qed

end
